theory Spec2Isabelle
  imports Main "HOL-Library.Word"
begin

unbundle bit_operations_syntax

section \<open>The screenshot command (cmds/screenshot/screenshot.cpp)\<close>

text \<open>
  The command asks the SurfaceFlinger for an image of the screen and writes it to
  standard output: a packed \<open>fbinfo\<close> header followed by the scan lines, last row of
  the buffer first. The model follows the three functions of the file: \<open>writex\<close>,
  \<open>write_data\<close> and \<open>main\<close>.

  Integers. \<open>unsigned int\<close> and \<open>uint32_t\<close> are 32-bit words. \<open>size_t\<close> is taken
  as 32 bits wide too, as on the ILP32 targets this code was written for, so that every
  product below wraps modulo \<open>2 ^ 32\<close>. \<open>status_t\<close>, \<open>errno\<close>, file descriptors and
  the value \<open>write\<close> returns are small signed integers and are modelled as \<open>int\<close>.
\<close>

type_synonym byte = "8 word"
type_synonym uint32_t = "32 word"
type_synonym size_t = "32 word"
type_synonym status_t = int

subsection \<open>Declarations the file includes\<close>

text \<open>
  Modelled from the spec: the headers that declare these names (utils/Errors.h,
  ui/PixelFormat.h, ui/DisplayInfo.h, ui/ISurfaceComposer.h, errno.h, unistd.h) are not
  part of the source file. The spec gives the pixel format as the closed enumeration
  RGBA-8888, RGB-565, Unknown; the geometry as width, height, pixel format tag,
  bytes-per-pixel and orientation flag; success as status 0 and the unsupported format as
  an error status of its own. The numbers are those of the platform headers; no theorem
  below depends on them beyond \<open>BAD_VALUE \<noteq> NO_ERROR\<close>.
\<close>

definition NO_ERROR :: status_t where
  "NO_ERROR = 0"

definition BAD_VALUE :: status_t where
  "BAD_VALUE = - 22"

definition EINTR :: int where
  "EINTR = 4"

definition STDOUT_FILENO :: int where
  "STDOUT_FILENO = 1"

definition eOrientationSwapMask :: byte where
  "eOrientationSwapMask = 1"

datatype PixelFormat =
    PIXEL_FORMAT_RGBA_8888
  | PIXEL_FORMAT_RGB_565
  | PIXEL_FORMAT_UNKNOWN

record PixelFormatInfo =
  format :: PixelFormat
  bytesPerPixel :: size_t

record DisplayInfo =
  info_w :: uint32_t
  info_h :: uint32_t
  pixelFormatInfo :: PixelFormatInfo
  orientation :: byte

subsection \<open>The header: \<open>struct fbinfo\<close> (lines 38--53)\<close>

definition DDMS_RAWIMAGE_VERSION :: uint32_t where
  "DDMS_RAWIMAGE_VERSION = 1"

text \<open>The fields in the order of the declaration; \<open>size\<close> is named \<open>size_bytes\<close> here.\<close>

record fbinfo =
  version :: uint32_t
  bpp :: uint32_t
  size_bytes :: uint32_t
  width :: uint32_t
  height :: uint32_t
  red_offset :: uint32_t
  red_length :: uint32_t
  blue_offset :: uint32_t
  blue_length :: uint32_t
  green_offset :: uint32_t
  green_length :: uint32_t
  alpha_offset :: uint32_t
  alpha_length :: uint32_t

text \<open>
  The struct is packed, so its bytes in memory are the thirteen fields one after the
  other, four bytes each, in declaration order. The bytes of a field are in the byte
  order of the machine, little-endian on the targets of this code.
\<close>

definition le32 :: "uint32_t \<Rightarrow> byte list" where
  "le32 x = [ucast x, ucast (drop_bit 8 x), ucast (drop_bit 16 x), ucast (drop_bit 24 x)]"

definition le32_value :: "byte list \<Rightarrow> uint32_t" where
  "le32_value bs =
     ucast (bs ! 0) OR push_bit 8 (ucast (bs ! 1)) OR push_bit 16 (ucast (bs ! 2))
       OR push_bit 24 (ucast (bs ! 3))"

definition fbinfo_bytes :: "fbinfo \<Rightarrow> byte list" where
  "fbinfo_bytes f =
     le32 (version f) @ le32 (bpp f) @ le32 (size_bytes f) @ le32 (width f) @ le32 (height f) @
     le32 (red_offset f) @ le32 (red_length f) @
     le32 (blue_offset f) @ le32 (blue_length f) @
     le32 (green_offset f) @ le32 (green_length f) @
     le32 (alpha_offset f) @ le32 (alpha_length f)"

text \<open>The field that starts at byte \<open>off\<close> of a byte string.\<close>

definition field_at :: "nat \<Rightarrow> byte list \<Rightarrow> uint32_t" where
  "field_at off bs = le32_value (take 4 (drop off bs))"

subsection \<open>The output sink and the \<open>write\<close> system call\<close>

text \<open>
  The sink behind the file descriptor answers each call of \<open>write\<close> in one of two
  ways: it takes some bytes (\<open>Accept k\<close>: at most \<open>k\<close> of those offered, and never
  more than \<open>SSIZE_MAX\<close>, the largest count the call can return, which is
  \<open>2 ^ 31 - 1\<close> where \<open>ssize_t\<close> has 32 bits; \<open>Accept 0\<close> is a call that returns
  0), or the call fails with an error number (\<open>Fail e\<close>: it returns \<open>-1\<close> and sets
  \<open>errno\<close> to \<open>e\<close>). The answers of one run are a sequence indexed by the number of
  calls made so far. The world holds that sequence, the call count, the bytes the sink
  has taken, \<open>errno\<close>, and the log of the resource operations of \<open>main\<close>: the region
  created and mapped, unmapped and closed.
\<close>

datatype response = Accept nat | Fail int

datatype event =
    AshmemCreate size_t
  | Mmap size_t
  | Munmap size_t
  | CloseFd int

record world =
  sink :: "nat \<Rightarrow> response"
  calls :: nat
  out :: "byte list"
  errno :: int
  events :: "event list"

definition SSIZE_MAX :: nat where
  "SSIZE_MAX = 2147483647"

definition sys_write :: "int \<Rightarrow> byte list \<Rightarrow> world \<Rightarrow> int \<times> world" where
  "sys_write fd p w =
     (case sink w (calls w) of
        Accept k \<Rightarrow>
          (let r = min (min k (length p)) SSIZE_MAX
           in (int r, w\<lparr>calls := Suc (calls w), out := out w @ take r p\<rparr>))
      | Fail e \<Rightarrow> (- 1, w\<lparr>calls := Suc (calls w), errno := e\<rparr>))"

subsection \<open>\<open>writex\<close> (lines 58--75)\<close>

text \<open>
  The argument \<open>p\<close> is the bytes from \<open>ptr\<close> up to \<open>ptr + len\<close>, so \<open>len > 0\<close> is
  \<open>p \<noteq> []\<close>, and \<open>len -= r; p += r\<close> drops the first \<open>r\<close> bytes. The loop need not
  end (a sink that interrupts every call), so the function is partial: \<open>None\<close> is a
  run that never returns.
\<close>

partial_function (option) writex :: "int \<Rightarrow> byte list \<Rightarrow> world \<Rightarrow> (int \<times> world) option" where
  "writex fd p w =
     (if length p > 0 then
        (case sys_write fd p w of
           (r, w') \<Rightarrow>
             if r > 0 then writex fd (drop (nat r) p) w'
             else if r < 0 \<and> errno w' = EINTR then writex fd p w'
             else Some (- 1, w'))
      else Some (0, w))"

subsection \<open>\<open>write_data\<close> (lines 77--129)\<close>

text \<open>
  Lines 83--106. The local \<open>fbinfo\<close> is declared without an initialiser, so it starts
  with whatever its stack slot holds: the argument \<open>fbinfo0\<close>. The assignments overwrite
  the fields they name. \<open>None\<close> is the \<open>default\<close> branch of the switch.
\<close>

definition write_data_fbinfo :: "DisplayInfo \<Rightarrow> fbinfo \<Rightarrow> fbinfo option" where
  "write_data_fbinfo info fbinfo0 =
     (let fbinfo = fbinfo0\<lparr>
            version := DDMS_RAWIMAGE_VERSION,
            bpp := bytesPerPixel (pixelFormatInfo info) * 8,
            size_bytes := info_w info * info_h info * bytesPerPixel (pixelFormatInfo info),
            width := info_w info,
            height := info_h info\<rparr>
      in case format (pixelFormatInfo info) of
           PIXEL_FORMAT_RGBA_8888 \<Rightarrow>
             Some (fbinfo\<lparr>red_offset := 0, red_length := 8,
                           green_offset := 8, green_length := 8,
                           blue_offset := 16, blue_length := 8\<rparr>)
         | PIXEL_FORMAT_RGB_565 \<Rightarrow>
             Some (fbinfo\<lparr>red_offset := 11, red_length := 5,
                           green_offset := 5, green_length := 6,
                           blue_offset := 0, blue_length := 5\<rparr>)
         | PIXEL_FORMAT_UNKNOWN \<Rightarrow> None)"

text \<open>
  The buffer \<open>data\<close> is the bytes of the mapping the pointer refers to, and the cursor
  is kept as its distance from the start of the buffer, a \<open>size_t\<close> like every pointer
  difference here. Reading \<open>n\<close> bytes at the cursor is defined when they lie inside the
  buffer. Outside it the C program has no defined behaviour (the kernel may answer
  \<open>EFAULT\<close> or send whatever memory is there): the model stops with \<open>OutOfBounds\<close>.
\<close>

datatype fault = OutOfBounds

definition fetch :: "byte list \<Rightarrow> size_t \<Rightarrow> size_t \<Rightarrow> byte list option" where
  "fetch data cur n =
     (if unat cur + unat n \<le> length data then Some (take (unat n) (drop (unat cur) data))
      else None)"

text \<open>
  Lines 120--126, the loop over the rows. \<open>LOGE\<close> writes to the log, not to the sink,
  and is taken to leave \<open>errno\<close> as it is.
\<close>

function write_data_rows ::
  "int \<Rightarrow> byte list \<Rightarrow> size_t \<Rightarrow> uint32_t \<Rightarrow> uint32_t \<Rightarrow> size_t \<Rightarrow> world \<Rightarrow>
     ((fault + status_t) \<times> world) option" where
  "write_data_rows fd data linesize h y cur w =
     (if y < h then
        (let cur' = cur - linesize in
         case fetch data cur' linesize of
           None \<Rightarrow> Some (Inl OutOfBounds, w)
         | Some row \<Rightarrow>
             (case writex fd row w of
                None \<Rightarrow> None
              | Some (r, w') \<Rightarrow>
                  if r \<noteq> 0 then Some (Inr (- errno w'), w')
                  else write_data_rows fd data linesize h (y + 1) cur' w'))
      else Some (Inr NO_ERROR, w))"
  by pat_completeness auto
termination
proof (relation "measure (\<lambda>(fd, data, linesize, h, y, cur, w). unat h - unat y)")
  show "wf (measure (\<lambda>(fd, data, linesize, h, y, cur, w). unat h - unat y))"
    by simp
next
  fix fd :: int and data :: "byte list" and linesize h y cur :: "32 word" and w :: world
    and cur' row x2 r w'
  assume "y < h"
  then have "unat y < unat h"
    by (simp add: word_less_nat_alt)
  moreover from \<open>y < h\<close> have "unat (y + 1) = Suc (unat y)"
    by unat_arith
  ultimately show "((fd, data, linesize, h, y + 1, cur', w'), (fd, data, linesize, h, y, cur, w))
      \<in> measure (\<lambda>(fd, data, linesize, h, y, cur, w). unat h - unat y)"
    by simp
qed

text \<open>The whole function. The argument \<open>len\<close> is declared and never read.\<close>

definition write_data ::
  "int \<Rightarrow> DisplayInfo \<Rightarrow> byte list \<Rightarrow> size_t \<Rightarrow> fbinfo \<Rightarrow> world \<Rightarrow>
     ((fault + status_t) \<times> world) option" where
  "write_data fd info data len fbinfo0 w =
     (case write_data_fbinfo info fbinfo0 of
        None \<Rightarrow> Some (Inr BAD_VALUE, w)
      | Some fbinfo \<Rightarrow>
          (case writex fd (fbinfo_bytes fbinfo) w of
             None \<Rightarrow> None
           | Some (r, w') \<Rightarrow>
               if r \<noteq> 0 then Some (Inr (- errno w'), w')
               else
                 (let linesize = bytesPerPixel (pixelFormatInfo info) * info_w info
                  in write_data_rows fd data linesize (info_h info) 0
                       (linesize * info_h info) w')))"

subsection \<open>\<open>main\<close> (lines 131--191)\<close>

text \<open>
  What the services outside the program answer in one run: the compositor to
  \<open>getDisplayInfo\<close> (a status and the geometry) and to \<open>grabScreen\<close> (a status and
  the frame it stores in the shared region), the kernel to \<open>ashmem_create_region\<close> (a
  descriptor, negative on failure, with the error number), to \<open>mmap\<close> (whether the
  region was mapped, with the error number) and to \<open>munmap\<close> (its return value, with
  the error number). \<open>stack_fbinfo\<close> is what the stack holds where \<open>write_data\<close>
  places its local header.
\<close>

record env =
  getDisplayInfo :: "status_t \<times> DisplayInfo"
  ashmem_create_region :: "int \<times> int"
  mmap :: "bool \<times> int"
  grabScreen :: "status_t \<times> byte list"
  munmap :: "int \<times> int"
  stack_fbinfo :: fbinfo

text \<open>Lines 147--154: the width and height are exchanged when the swap bit is set.\<close>

definition undo_orientation :: "DisplayInfo \<Rightarrow> DisplayInfo" where
  "undo_orientation info =
     (if orientation info AND eOrientationSwapMask \<noteq> 0
      then info\<lparr>info_w := info_h info, info_h := info_w info\<rparr>
      else info)"

text \<open>
  The mapping is \<open>fb_size\<close> bytes long; after a successful \<open>grabScreen\<close> it holds the
  frame (a fresh region reads as zeros where nothing was stored). The log records the
  two acquisitions and the two releases in the order the program performs them.
\<close>

definition mapped_frame :: "size_t \<Rightarrow> byte list \<Rightarrow> byte list" where
  "mapped_frame fb_size frame = take (unat fb_size) (frame @ replicate (unat fb_size) 0)"

definition main :: "env \<Rightarrow> world \<Rightarrow> ((fault + int) \<times> world) option" where
  "main e w =
     (case getDisplayInfo e of
        (err, info0) \<Rightarrow>
          if err \<noteq> 0 then Some (Inr (- 1), w)
          else
            (let info = undo_orientation info0;
                 fb_size = info_w info * info_h info * bytesPerPixel (pixelFormatInfo info)
             in case ashmem_create_region e of
                  (fb_fd, e1) \<Rightarrow>
                    if fb_fd < 0 then Some (Inr (- e1), w\<lparr>errno := e1\<rparr>)
                    else
                      (let w1 = w\<lparr>events := events w @ [AshmemCreate fb_size]\<rparr>
                       in case mmap e of
                            (mapped, e2) \<Rightarrow>
                              if \<not> mapped then Some (Inr (- e2), w1\<lparr>errno := e2\<rparr>)
                              else
                                (let w2 = w1\<lparr>events := events w1 @ [Mmap fb_size]\<rparr>
                                 in case grabScreen e of
                                      (err, frame) \<Rightarrow>
                                        if err \<noteq> 0 then Some (Inr (- 1), w2)
                                        else
                                          (case write_data STDOUT_FILENO info
                                                  (mapped_frame fb_size frame) fb_size
                                                  (stack_fbinfo e) w2 of
                                             None \<Rightarrow> None
                                           | Some (Inl f, w3) \<Rightarrow> Some (Inl f, w3)
                                           | Some (Inr err, w3) \<Rightarrow>
                                               if err \<noteq> 0 then Some (Inr (- 1), w3)
                                               else
                                                 (case munmap e of
                                                    (r, e3) \<Rightarrow>
                                                      Some (Inr 0,
                                                        w3\<lparr>errno := (if r < 0 then e3 else errno w3),
                                                           events := events w3 @
                                                             [Munmap fb_size, CloseFd fb_fd]\<rparr>)))))))"

subsection \<open>Vocabulary of the statements\<close>

text \<open>
  A sink that never fails takes at least one byte at every call (it may still take
  fewer than offered). \<open>interrupted_at i s\<close> is the sink \<open>s\<close> with one interruption put
  before its answer number \<open>i\<close>: call \<open>i\<close> fails with \<open>EINTR\<close>, and the retry gets the
  answer \<open>s\<close> would have given. A sink is well behaved when no call returns 0 and every
  failing call sets a nonzero error number, as the kernel does.
\<close>

definition never_fails :: "(nat \<Rightarrow> response) \<Rightarrow> bool" where
  "never_fails s = (\<forall>n. \<exists>k. s n = Accept (Suc k))"

definition interrupted_at :: "nat \<Rightarrow> (nat \<Rightarrow> response) \<Rightarrow> nat \<Rightarrow> response" where
  "interrupted_at i s n = (if n < i then s n else if n = i then Fail EINTR else s (n - 1))"

definition well_behaved :: "(nat \<Rightarrow> response) \<Rightarrow> bool" where
  "well_behaved s = (\<forall>n. s n \<noteq> Accept 0 \<and> s n \<noteq> Fail 0)"

text \<open>
  The layout the specification words give the header: the channel pairs in the order
  red, green, blue, alpha. It is compared with \<open>fbinfo_bytes\<close>, the layout of the
  declaration.
\<close>

definition spec_header_bytes :: "fbinfo \<Rightarrow> byte list" where
  "spec_header_bytes f =
     le32 (version f) @ le32 (bpp f) @ le32 (size_bytes f) @ le32 (width f) @ le32 (height f) @
     le32 (red_offset f) @ le32 (red_length f) @
     le32 (green_offset f) @ le32 (green_length f) @
     le32 (blue_offset f) @ le32 (blue_length f) @
     le32 (alpha_offset f) @ le32 (alpha_length f)"

subsection \<open>Concrete inputs\<close>

text \<open>
  Inputs for the instances below: a world in which nothing has happened yet, over a given
  sink; a geometry from its five components; a stack slot whose thirteen words all hold
  the same stale value; and the answers of the services to one run of \<open>main\<close> on a
  screen reported as 1 by 2 pixels of 4 bytes, where the compositor answers
  \<open>grabScreen\<close> with a given status and stores the frame 1, ..., 8.
\<close>

definition world0 :: "(nat \<Rightarrow> response) \<Rightarrow> world" where
  "world0 s = \<lparr>sink = s, calls = 0, out = [], errno = 0, events = []\<rparr>"

definition geometry :: "PixelFormat \<Rightarrow> size_t \<Rightarrow> uint32_t \<Rightarrow> uint32_t \<Rightarrow> byte \<Rightarrow> DisplayInfo" where
  "geometry f b wd ht ori =
     \<lparr>info_w = wd, info_h = ht, pixelFormatInfo = \<lparr>format = f, bytesPerPixel = b\<rparr>, orientation = ori\<rparr>"

definition stale_fbinfo :: "uint32_t \<Rightarrow> fbinfo" where
  "stale_fbinfo x =
     \<lparr>version = x, bpp = x, size_bytes = x, width = x, height = x,
      red_offset = x, red_length = x, blue_offset = x, blue_length = x,
      green_offset = x, green_length = x, alpha_offset = x, alpha_length = x\<rparr>"

definition screen_env :: "status_t \<Rightarrow> PixelFormat \<Rightarrow> byte \<Rightarrow> env" where
  "screen_env grab f ori =
     \<lparr>getDisplayInfo = (0, geometry f 4 1 2 ori),
      ashmem_create_region = (3, 0),
      mmap = (True, 0),
      grabScreen = (grab, [1, 2, 3, 4, 5, 6, 7, 8]),
      munmap = (0, 0),
      stack_fbinfo = stale_fbinfo 0\<rparr>"

section \<open>Properties\<close>

declare write_data_rows.simps [simp del]

subsection \<open>The bytes of the header\<close>

text \<open>A field is read back from its four bytes, and the header is 52 bytes long.\<close>

lemma le32_value_le32: "le32_value (le32 x) = x"
proof (rule bit_word_eqI)
  fix n assume "n < LENGTH(32)"
  then consider "n < 8" | "8 \<le> n" "n < 16" | "16 \<le> n" "n < 24" | "24 \<le> n" "n < 32"
    by fastforce
  then show "bit (le32_value (le32 x)) n \<longleftrightarrow> bit x n"
    by cases (auto simp: le32_def le32_value_def bit_simps)
qed

lemma length_le32: "length (le32 x) = 4"
  by (simp add: le32_def)

lemma field_at_le32: "field_at 0 (le32 x @ bs) = x"
  by (simp add: field_at_def length_le32 le32_value_le32)

lemma field_at_next: "4 \<le> k \<Longrightarrow> field_at k (le32 x @ bs) = field_at (k - 4) bs"
  by (simp add: field_at_def length_le32)

lemma length_fbinfo_bytes: "length (fbinfo_bytes f) = 52"
  by (simp add: fbinfo_bytes_def length_le32)

lemma field_at_alpha:
  "field_at 44 (fbinfo_bytes f @ rest) = alpha_offset f \<and>
   field_at 48 (fbinfo_bytes f @ rest) = alpha_length f"
  by (simp add: fbinfo_bytes_def field_at_next field_at_le32)

text \<open>
  Claim C3, as amended. The header \<open>write_data\<close> sends (line 108 passes the struct and
  its size to \<open>writex\<close>) is 52 bytes long: thirteen fields of four bytes, with no
  padding. The first five are version, bits per pixel, size, width and height. The
  channel pairs (offset, then length) follow in the order of the declaration, which is
  red, blue, green, alpha: blue comes before green.
\<close>

theorem fbinfo_bytes_layout:
  "length (fbinfo_bytes f) = 52 \<and>
   field_at 0 (fbinfo_bytes f) = version f \<and>
   field_at 4 (fbinfo_bytes f) = bpp f \<and>
   field_at 8 (fbinfo_bytes f) = size_bytes f \<and>
   field_at 12 (fbinfo_bytes f) = width f \<and>
   field_at 16 (fbinfo_bytes f) = height f \<and>
   field_at 20 (fbinfo_bytes f) = red_offset f \<and>
   field_at 24 (fbinfo_bytes f) = red_length f \<and>
   field_at 28 (fbinfo_bytes f) = blue_offset f \<and>
   field_at 32 (fbinfo_bytes f) = blue_length f \<and>
   field_at 36 (fbinfo_bytes f) = green_offset f \<and>
   field_at 40 (fbinfo_bytes f) = green_length f \<and>
   field_at 44 (fbinfo_bytes f) = alpha_offset f \<and>
   field_at 48 (fbinfo_bytes f) = alpha_length f"
proof -
  have last: "field_at 0 (le32 x) = x" for x
    using field_at_le32 [of x "[]"] by simp
  show ?thesis
    by (simp add: length_fbinfo_bytes) (simp add: fbinfo_bytes_def field_at_next field_at_le32 last)
qed

text \<open>
  Claim C3 as stated puts green before blue. For the RGB-565 header of a 2 by 2 screen
  the bytes that order gives differ from the bytes of the declaration.
\<close>

theorem spec_header_bytes_counterexample:
  "write_data_fbinfo (geometry PIXEL_FORMAT_RGB_565 2 2 2 0) (stale_fbinfo 0) =
     Some \<lparr>version = 1, bpp = 16, size_bytes = 8, width = 2, height = 2,
      red_offset = 11, red_length = 5, blue_offset = 0, blue_length = 5,
      green_offset = 5, green_length = 6, alpha_offset = 0, alpha_length = 0\<rparr> \<and>
   fbinfo_bytes \<lparr>version = 1, bpp = 16, size_bytes = 8, width = 2, height = 2,
      red_offset = 11, red_length = 5, blue_offset = 0, blue_length = 5,
      green_offset = 5, green_length = 6, alpha_offset = 0, alpha_length = 0\<rparr> \<noteq>
   spec_header_bytes \<lparr>version = 1, bpp = 16, size_bytes = 8, width = 2, height = 2,
      red_offset = 11, red_length = 5, blue_offset = 0, blue_length = 5,
      green_offset = 5, green_length = 6, alpha_offset = 0, alpha_length = 0\<rparr>"
  by (simp add: write_data_fbinfo_def geometry_def stale_fbinfo_def DDMS_RAWIMAGE_VERSION_def
      fbinfo_bytes_def spec_header_bytes_def le32_def)

subsection \<open>\<open>write_data\<close>: the fields of the header\<close>

text \<open>
  What lines 83--106 leave in the header: it exists for the two supported formats, and
  its width, height and size come from the geometry.
\<close>

lemma write_data_fbinfo_supported:
  "format (pixelFormatInfo info) = PIXEL_FORMAT_RGBA_8888 \<or>
   format (pixelFormatInfo info) = PIXEL_FORMAT_RGB_565 \<Longrightarrow>
   \<exists>hdr. write_data_fbinfo info fbinfo0 = Some hdr"
  by (auto simp: write_data_fbinfo_def Let_def)


lemma write_data_fbinfo_size:
  "write_data_fbinfo info fbinfo0 = Some hdr \<Longrightarrow>
     size_bytes hdr = info_w info * info_h info * bytesPerPixel (pixelFormatInfo info)"
  by (auto simp: write_data_fbinfo_def Let_def split: PixelFormat.splits)

lemma write_data_fbinfo_bpp:
  "write_data_fbinfo info fbinfo0 = Some hdr \<Longrightarrow>
     bpp hdr = bytesPerPixel (pixelFormatInfo info) * 8"
  by (auto simp: write_data_fbinfo_def Let_def split: PixelFormat.splits)

text \<open>
  Claim C5. The bits-per-pixel field is 8 times the geometry's \<open>bytesPerPixel\<close>
  (line 84), and \<open>bytesPerPixel\<close> is the byte size of the pixel format: 4 for
  RGBA-8888 and 2 for RGB-565. For every such geometry of format RGBA-8888 the header has
  32 bits per pixel and the channel fields red (0, 8), green (8, 8), blue (16, 8); for
  every such geometry of format RGB-565 it has 16 bits per pixel and the channel fields
  red (11, 5), green (5, 6), blue (0, 5).
\<close>

theorem write_data_fbinfo_channels:
  "(format (pixelFormatInfo info) = PIXEL_FORMAT_RGBA_8888 \<and>
    bytesPerPixel (pixelFormatInfo info) = 4 \<longrightarrow>
      (\<exists>hdr. write_data_fbinfo info fbinfo0 = Some hdr \<and> bpp hdr = 32 \<and>
         red_offset hdr = 0 \<and> red_length hdr = 8 \<and>
         green_offset hdr = 8 \<and> green_length hdr = 8 \<and>
         blue_offset hdr = 16 \<and> blue_length hdr = 8)) \<and>
   (format (pixelFormatInfo info) = PIXEL_FORMAT_RGB_565 \<and>
    bytesPerPixel (pixelFormatInfo info) = 2 \<longrightarrow>
      (\<exists>hdr. write_data_fbinfo info fbinfo0 = Some hdr \<and> bpp hdr = 16 \<and>
         red_offset hdr = 11 \<and> red_length hdr = 5 \<and>
         green_offset hdr = 5 \<and> green_length hdr = 6 \<and>
         blue_offset hdr = 0 \<and> blue_length hdr = 5))"
proof (intro conjI impI)
  assume a: "format (pixelFormatInfo info) = PIXEL_FORMAT_RGBA_8888 \<and>
    bytesPerPixel (pixelFormatInfo info) = 4"
  then obtain hdr where hdr: "write_data_fbinfo info fbinfo0 = Some hdr"
    using write_data_fbinfo_supported by blast
  from write_data_fbinfo_bpp [OF hdr] a have "bpp hdr = 32"
    by simp
  moreover from hdr a have "red_offset hdr = 0 \<and> red_length hdr = 8 \<and>
      green_offset hdr = 8 \<and> green_length hdr = 8 \<and> blue_offset hdr = 16 \<and> blue_length hdr = 8"
    by (auto simp: write_data_fbinfo_def Let_def)
  ultimately show "\<exists>hdr. write_data_fbinfo info fbinfo0 = Some hdr \<and> bpp hdr = 32 \<and>
         red_offset hdr = 0 \<and> red_length hdr = 8 \<and>
         green_offset hdr = 8 \<and> green_length hdr = 8 \<and>
         blue_offset hdr = 16 \<and> blue_length hdr = 8"
    using hdr by blast
next
  assume a: "format (pixelFormatInfo info) = PIXEL_FORMAT_RGB_565 \<and>
    bytesPerPixel (pixelFormatInfo info) = 2"
  then obtain hdr where hdr: "write_data_fbinfo info fbinfo0 = Some hdr"
    using write_data_fbinfo_supported by blast
  from write_data_fbinfo_bpp [OF hdr] a have "bpp hdr = 16"
    by simp
  moreover from hdr a have "red_offset hdr = 11 \<and> red_length hdr = 5 \<and>
      green_offset hdr = 5 \<and> green_length hdr = 6 \<and> blue_offset hdr = 0 \<and> blue_length hdr = 5"
    by (auto simp: write_data_fbinfo_def Let_def)
  ultimately show "\<exists>hdr. write_data_fbinfo info fbinfo0 = Some hdr \<and> bpp hdr = 16 \<and>
         red_offset hdr = 11 \<and> red_length hdr = 5 \<and>
         green_offset hdr = 5 \<and> green_length hdr = 6 \<and>
         blue_offset hdr = 0 \<and> blue_length hdr = 5"
    using hdr by blast
qed

theorem write_data_fbinfo_channels_witness:
  "(\<exists>hdr. write_data_fbinfo (geometry PIXEL_FORMAT_RGBA_8888 4 4 2 0) (stale_fbinfo 7) = Some hdr \<and>
      bpp hdr = 32 \<and> red_offset hdr = 0 \<and> red_length hdr = 8 \<and> green_offset hdr = 8 \<and>
      green_length hdr = 8 \<and> blue_offset hdr = 16 \<and> blue_length hdr = 8) \<and>
   (\<exists>hdr. write_data_fbinfo (geometry PIXEL_FORMAT_RGB_565 2 4 2 0) (stale_fbinfo 7) = Some hdr \<and>
      bpp hdr = 16 \<and> red_offset hdr = 11 \<and> red_length hdr = 5 \<and> green_offset hdr = 5 \<and>
      green_length hdr = 6 \<and> blue_offset hdr = 0 \<and> blue_length hdr = 5)"
  using write_data_fbinfo_channels [of "geometry PIXEL_FORMAT_RGBA_8888 4 4 2 0" "stale_fbinfo 7"]
    write_data_fbinfo_channels [of "geometry PIXEL_FORMAT_RGB_565 2 4 2 0" "stale_fbinfo 7"]
  by (simp add: geometry_def)

subsection \<open>\<open>writex\<close>\<close>

text \<open>What one call of \<open>write\<close> does to the world.\<close>

lemma sys_write_Accept:
  "sink w (calls w) = Accept k \<Longrightarrow>
   sys_write fd p w =
     (int (min (min k (length p)) SSIZE_MAX),
      w\<lparr>calls := Suc (calls w), out := out w @ take (min (min k (length p)) SSIZE_MAX) p\<rparr>)"
  by (simp add: sys_write_def Let_def)

lemma sys_write_Fail:
  "sink w (calls w) = Fail e \<Longrightarrow>
   sys_write fd p w = (- 1, w\<lparr>calls := Suc (calls w), errno := e\<rparr>)"
  by (simp add: sys_write_def)

lemma sys_write_frame:
  "sys_write fd p w = (r, w') \<Longrightarrow>
     sink w' = sink w \<and> events w' = events w \<and> calls w' = Suc (calls w)"
  by (auto simp: sys_write_def Let_def split: response.splits)

lemma sys_write_pos:
  "sys_write fd p w = (r, w') \<Longrightarrow> 0 < r \<Longrightarrow>
     out w' = out w @ take (nat r) p \<and> nat r \<le> length p"
  by (auto simp: sys_write_def Let_def split: response.splits)

lemma sys_write_nonpos:
  "sys_write fd p w = (r, w') \<Longrightarrow> \<not> 0 < r \<Longrightarrow> out w' = out w"
  by (auto simp: sys_write_def Let_def split: response.splits)

text \<open>
  Whatever the sink does: if \<open>writex\<close> returns, it returns 0 having sent all the bytes,
  or \<open>-1\<close> having sent some of them; it touches nothing but the sink.
\<close>

lemma writex_result:
  assumes "writex fd p w = Some y"
  shows "sink (snd y) = sink w \<and> events (snd y) = events w \<and> calls w \<le> calls (snd y) \<and>
         (fst y = 0 \<and> out (snd y) = out w @ p \<or>
          fst y = - 1 \<and> (\<exists>q. out (snd y) = out w @ q))"
  using assms
proof (induction rule: writex.raw_induct [rotated 1, consumes 1, case_names step])
  case 1: (step writex' fd p w y)
  show ?case
  proof (cases "0 < length p")
    case False
    with 1(2) show ?thesis by auto
  next
    case True
    obtain r w1 where sw: "sys_write fd p w = (r, w1)"
      by (cases "sys_write fd p w")
    note fr = sys_write_frame [OF sw]
    consider (pos) "0 < r" | (intr) "\<not> 0 < r" "r < 0 \<and> errno w1 = EINTR"
      | (stop) "\<not> 0 < r" "\<not> (r < 0 \<and> errno w1 = EINTR)"
      by blast
    then show ?thesis
    proof cases
      case pos
      with 1(2) True sw have "writex' fd (drop (nat r) p) w1 = Some y"
        by simp
      from 1(1) [OF this] sys_write_pos [OF sw pos] fr show ?thesis
        by (auto simp: append_take_drop_id)
    next
      case intr
      with 1(2) True sw have "writex' fd p w1 = Some y"
        by simp
      from 1(1) [OF this] sys_write_nonpos [OF sw intr(1)] fr show ?thesis
        by auto
    next
      case stop
      with 1(2) True sw have "y = (- 1, w1)"
        by auto
      with sys_write_nonpos [OF sw stop(1)] fr show ?thesis
        by auto
    qed
  qed
qed

text \<open>
  \<open>writex\<close> returns 0 when every call takes at least one byte, apart from finitely
  many calls (those before call \<open>N\<close>) that may be interrupted.
\<close>

lemma writex_Nil: "writex fd [] w = Some (0, w)"
  by (subst writex.simps) simp

lemma writex_completes:
  assumes "\<forall>n\<ge>calls w. (\<exists>k. sink w n = Accept (Suc k)) \<or> (n < N \<and> sink w n = Fail EINTR)"
  shows "\<exists>w'. writex fd p w = Some (0, w') \<and> out w' = out w @ p \<and> sink w' = sink w \<and>
           events w' = events w \<and> calls w \<le> calls w'"
  using assms
proof (induction "length p + (N - calls w)" arbitrary: p w rule: less_induct)
  case less
  show ?case
  proof (cases "p = []")
    case True
    then show ?thesis by (simp add: writex_Nil)
  next
    case False
    from less.prems have "(\<exists>k. sink w (calls w) = Accept (Suc k)) \<or>
        (calls w < N \<and> sink w (calls w) = Fail EINTR)"
      by simp
    then show ?thesis
    proof (elim disjE exE conjE)
      fix k assume acc: "sink w (calls w) = Accept (Suc k)"
      define r where "r = min (min (Suc k) (length p)) SSIZE_MAX"
      define w1 where "w1 = w\<lparr>calls := Suc (calls w), out := out w @ take r p\<rparr>"
      from False have rpos: "0 < r" by (simp add: r_def SSIZE_MAX_def)
      have sw: "sys_write fd p w = (int r, w1)"
        by (simp add: sys_write_Accept [OF acc] r_def w1_def)
      have step: "writex fd p w = writex fd (drop r p) w1"
        using False rpos by (subst writex.simps) (simp add: sw)
      have "length (drop r p) < length p"
        using False rpos by (cases p) (simp_all add: r_def)
      then have "length (drop r p) + (N - calls w1) < length p + (N - calls w)"
        by (simp add: w1_def)
      moreover have "\<forall>n\<ge>calls w1. (\<exists>k. sink w1 n = Accept (Suc k)) \<or> (n < N \<and> sink w1 n = Fail EINTR)"
        using less.prems by (simp add: w1_def)
      ultimately obtain w' where w': "writex fd (drop r p) w1 = Some (0, w')"
        "out w' = out w1 @ drop r p" "sink w' = sink w1" "events w' = events w1"
        "calls w1 \<le> calls w'"
        using less.hyps by blast
      with step show ?thesis
        by (simp add: w1_def)
    next
      assume lt: "calls w < N" and intr: "sink w (calls w) = Fail EINTR"
      define w1 where "w1 = w\<lparr>calls := Suc (calls w), errno := EINTR\<rparr>"
      have sw: "sys_write fd p w = (- 1, w1)"
        by (simp add: sys_write_Fail [OF intr] w1_def)
      have step: "writex fd p w = writex fd p w1"
        using False by (subst writex.simps) (simp add: sw w1_def)
      have "length p + (N - calls w1) < length p + (N - calls w)"
        using lt by (simp add: w1_def) 
      moreover have "\<forall>n\<ge>calls w1. (\<exists>k. sink w1 n = Accept (Suc k)) \<or> (n < N \<and> sink w1 n = Fail EINTR)"
        using less.prems by (simp add: w1_def)
      ultimately obtain w' where w': "writex fd p w1 = Some (0, w')"
        "out w' = out w1 @ p" "sink w' = sink w1" "events w' = events w1"
        "calls w1 \<le> calls w'"
        using less.hyps by blast
      with step show ?thesis
        by (simp add: w1_def)
    qed
  qed
qed

lemma writex_never_fails:
  assumes "never_fails (sink w)"
  shows "\<exists>w'. writex fd p w = Some (0, w') \<and> out w' = out w @ p \<and> sink w' = sink w \<and>
           events w' = events w"
proof -
  from assms have "\<forall>n\<ge>calls w. (\<exists>k. sink w n = Accept (Suc k)) \<or> (n < 0 \<and> sink w n = Fail EINTR)"
    by (simp add: never_fails_def)
  from writex_completes [OF this] show ?thesis by blast
qed

text \<open>The three ways a call can go wrong: interrupted, returning 0, failing.\<close>

lemma writex_retry:
  assumes "p \<noteq> []" and "sink w (calls w) = Fail EINTR"
  shows "writex fd p w = writex fd p (w\<lparr>calls := Suc (calls w), errno := EINTR\<rparr>)"
  using assms(1) by (subst writex.simps) (simp add: sys_write_Fail [OF assms(2)])

lemma writex_terminal_zero:
  assumes "p \<noteq> []" and "sink w (calls w) = Accept 0"
  shows "writex fd p w = Some (- 1, w\<lparr>calls := Suc (calls w)\<rparr>)"
  using assms(1) by (subst writex.simps) (simp add: sys_write_Accept [OF assms(2)])

lemma writex_terminal_error:
  assumes "p \<noteq> []" and "sink w (calls w) = Fail e" and "e \<noteq> EINTR"
  shows "writex fd p w = Some (- 1, w\<lparr>calls := Suc (calls w), errno := e\<rparr>)"
  using assms(1,3) by (subst writex.simps) (simp add: sys_write_Fail [OF assms(2)])

lemma writex_interrupted_once:
  assumes "never_fails s"
  shows "\<exists>w'. writex fd p (w\<lparr>sink := interrupted_at i s\<rparr>) = Some (0, w') \<and> out w' = out w @ p"
proof -
  let ?w = "w\<lparr>sink := interrupted_at i s\<rparr>"
  from assms have "\<forall>n\<ge>calls ?w. (\<exists>k. sink ?w n = Accept (Suc k)) \<or>
      (n < Suc i \<and> sink ?w n = Fail EINTR)"
    by (auto simp: never_fails_def interrupted_at_def)
  from writex_completes [OF this, where fd = fd and p = p] show ?thesis
    by auto
qed

text \<open>Over a well-behaved sink a failing \<open>writex\<close> leaves a nonzero \<open>errno\<close>.\<close>

lemma writex_failure_errno:
  assumes "writex fd p w = Some y" and "well_behaved (sink w)" and "fst y \<noteq> 0"
  shows "errno (snd y) \<noteq> 0"
  using assms
proof (induction rule: writex.raw_induct [rotated 1, consumes 1, case_names step])
  case 1: (step writex' fd p w y)
  show ?case
  proof (cases "0 < length p")
    case False
    with 1(2,4) show ?thesis by auto
  next
    case True
    obtain r w1 where sw: "sys_write fd p w = (r, w1)"
      by (cases "sys_write fd p w")
    from sys_write_frame [OF sw] 1(3) have wb: "well_behaved (sink w1)"
      by simp
    consider (pos) "0 < r" | (intr) "\<not> 0 < r" "r < 0 \<and> errno w1 = EINTR"
      | (stop) "\<not> 0 < r" "\<not> (r < 0 \<and> errno w1 = EINTR)"
      by blast
    then show ?thesis
    proof cases
      case pos
      with 1(2) True sw have "writex' fd (drop (nat r) p) w1 = Some y"
        by simp
      from 1(1) [OF this wb 1(4)] show ?thesis .
    next
      case intr
      with 1(2) True sw have "writex' fd p w1 = Some y"
        by simp
      from 1(1) [OF this wb 1(4)] show ?thesis .
    next
      case stop
      with 1(2) True sw have y: "y = (- 1, w1)"
        by auto
      from sw True 1(3) stop(1) have "errno w1 \<noteq> 0"
        by (auto simp: sys_write_def well_behaved_def Let_def SSIZE_MAX_def min_def
            split: response.splits if_splits)
      with y show ?thesis by simp
    qed
  qed
qed

text \<open>
  Claim C8, in four parts. A call that fails with \<open>EINTR\<close> is retried with the same
  bytes: nothing was sent and nothing is skipped. Hence a sink that never fails and the
  same sink with one interruption put before any one of its answers both make \<open>writex\<close>
  return 0 with the same output, the requested bytes. A call that returns 0, or fails
  with any other error number, ends \<open>writex\<close> at once with \<open>-1\<close>: no byte of that
  call is sent and no further call is made. And whenever \<open>writex\<close> returns 0, over any
  sink, the output has grown by exactly the requested bytes.
\<close>

theorem writex_reliable:
  "(p \<noteq> [] \<and> sink w (calls w) = Fail EINTR \<longrightarrow>
      writex fd p w = writex fd p (w\<lparr>calls := Suc (calls w), errno := EINTR\<rparr>)) \<and>
   (never_fails s \<longrightarrow>
      (\<exists>w1 w2. writex fd p (w\<lparr>sink := s\<rparr>) = Some (0, w1) \<and>
         writex fd p (w\<lparr>sink := interrupted_at i s\<rparr>) = Some (0, w2) \<and>
         out w2 = out w1 \<and> out w1 = out w @ p)) \<and>
   (p \<noteq> [] \<and> (sink w (calls w) = Accept 0 \<or> (\<exists>e. e \<noteq> EINTR \<and> sink w (calls w) = Fail e)) \<longrightarrow>
      (\<exists>w'. writex fd p w = Some (- 1, w') \<and> out w' = out w \<and> calls w' = Suc (calls w))) \<and>
   (\<forall>w'. writex fd p w = Some (0, w') \<longrightarrow> out w' = out w @ p)"
proof (intro conjI impI allI)
  assume "p \<noteq> [] \<and> sink w (calls w) = Fail EINTR"
  then show "writex fd p w = writex fd p (w\<lparr>calls := Suc (calls w), errno := EINTR\<rparr>)"
    by (simp add: writex_retry)
next
  assume nf: "never_fails s"
  then have "never_fails (sink (w\<lparr>sink := s\<rparr>))"
    by simp
  from writex_never_fails [OF this, where fd = fd and p = p]
    writex_interrupted_once [OF nf, where fd = fd and p = p and w = w and i = i]
  show "\<exists>w1 w2. writex fd p (w\<lparr>sink := s\<rparr>) = Some (0, w1) \<and>
         writex fd p (w\<lparr>sink := interrupted_at i s\<rparr>) = Some (0, w2) \<and>
         out w2 = out w1 \<and> out w1 = out w @ p"
    by auto
next
  assume "p \<noteq> [] \<and> (sink w (calls w) = Accept 0 \<or> (\<exists>e. e \<noteq> EINTR \<and> sink w (calls w) = Fail e))"
  then show "\<exists>w'. writex fd p w = Some (- 1, w') \<and> out w' = out w \<and> calls w' = Suc (calls w)"
    by (auto simp: writex_terminal_zero writex_terminal_error)
next
  fix w' assume "writex fd p w = Some (0, w')"
  from writex_result [OF this] show "out w' = out w @ p"
    by simp
qed

theorem writex_reliable_witness:
  "(\<exists>w1 w2. writex STDOUT_FILENO [1, 2, 3, 4, 5] (world0 (\<lambda>n. Accept 2)) = Some (0, w1) \<and>
      writex STDOUT_FILENO [1, 2, 3, 4, 5] (world0 (interrupted_at 1 (\<lambda>n. Accept 2))) = Some (0, w2) \<and>
      out w2 = out w1 \<and> out w1 = [1, 2, 3, 4, 5]) \<and>
   (\<exists>w'. writex STDOUT_FILENO [1, 2] (world0 (\<lambda>n. Accept 0)) = Some (- 1, w') \<and> out w' = [] \<and>
      calls w' = 1) \<and>
   (\<exists>w'. writex STDOUT_FILENO [1, 2] (world0 (\<lambda>n. Fail 32)) = Some (- 1, w') \<and> out w' = [] \<and>
      calls w' = 1)"
  using writex_reliable [where p = "[1, 2, 3, 4, 5]" and w = "world0 (\<lambda>n. Accept 2)"
      and fd = STDOUT_FILENO and s = "\<lambda>n. Accept 2" and i = 1]
    writex_reliable [where p = "[1, 2]" and w = "world0 (\<lambda>n. Accept 0)" and fd = STDOUT_FILENO]
    writex_reliable [where p = "[1, 2]" and w = "world0 (\<lambda>n. Fail 32)" and fd = STDOUT_FILENO]
  by (simp add: world0_def never_fails_def EINTR_def)

subsection \<open>\<open>write_data\<close>: the loop over the rows\<close>

text \<open>A buffer of rows of one length: its size, and the row at a given offset.\<close>

lemma length_concat_uniform:
  "\<forall>r\<in>set rows. length r = L \<Longrightarrow> length (concat rows) = length rows * L"
  by (induction rows) simp_all

lemma concat_uniform_nth:
  "\<forall>r\<in>set rows. length r = L \<Longrightarrow> i < length rows \<Longrightarrow>
     take L (drop (i * L) (concat rows)) = rows ! i"
proof (induction rows arbitrary: i)
  case Nil
  then show ?case by simp
next
  case (Cons r rs)
  show ?case
  proof (cases i)
    case 0
    with Cons.prems show ?thesis by simp
  next
    case (Suc j)
    with Cons.prems have "take L (drop (j * L) (concat rs)) = rs ! j"
      by (intro Cons.IH) simp_all
    with Suc Cons.prems show ?thesis by simp
  qed
qed

lemma uniform_rows_linesize:
  fixes b wd :: "32 word"
  assumes uni: "\<forall>r\<in>set rows. length r = unat b * unat wd"
    and fits: "length (concat rows) < 2 ^ 32"
  shows "\<forall>r\<in>set rows. length r = unat (b * wd)"
proof (cases "rows = []")
  case True
  then show ?thesis by simp
next
  case False
  then obtain n where n: "length rows = Suc n"
    by (cases rows) simp_all
  define P where "P = unat b * unat wd"
  have "P \<le> length rows * P"
    by (simp add: n)
  also have "\<dots> = length (concat rows)"
    unfolding P_def by (rule length_concat_uniform [OF uni, symmetric])
  also note fits
  finally have "unat b * unat wd < 2 ^ LENGTH(32)"
    by (simp add: P_def)
  then have "unat (b * wd) = unat b * unat wd"
    by (simp only: unat_mult_lem)
  with uni show ?thesis by simp
qed

lemma unat_Suc_less: "y < h \<Longrightarrow> unat (y + 1) = Suc (unat y)" for y h :: "32 word"
  by unat_arith

lemma fetch_length: "fetch data cur n = Some row \<Longrightarrow> length row = unat n"
  by (auto simp: fetch_def split: if_splits)

text \<open>
  The loop from row \<open>y\<close> on, over a sink that never fails and a buffer of \<open>h\<close> rows
  of \<open>linesize\<close> bytes: with the cursor at the end of the first \<open>m = h - y\<close> rows it
  sends those rows, last one first.
\<close>

lemma write_data_rows_reverse:
  assumes "never_fails (sink w)"
    and "\<forall>r\<in>set rows. length r = unat linesize"
    and "length rows = unat h"
    and "m = unat h - unat y" and "y \<le> h"
    and "unat cur = m * unat linesize"
  shows "\<exists>w'. write_data_rows fd (concat rows) linesize h y cur w = Some (Inr NO_ERROR, w') \<and>
           out w' = out w @ concat (rev (take m rows)) \<and> sink w' = sink w \<and>
           events w' = events w"
  using assms
proof (induction m arbitrary: y cur w)
  case 0
  then have "\<not> y < h"
    by (simp add: word_less_nat_alt word_le_nat_alt)
  then show ?case
    by (subst write_data_rows.simps) simp
next
  case (Suc m)
  let ?L = "unat linesize"
  from Suc.prems have yh: "y < h"
    by (simp add: word_less_nat_alt)
  have y1: "unat (y + 1) = Suc (unat y)"
    by (rule unat_Suc_less [OF yh])
  from Suc.prems have mh: "m < length rows"
    by simp
  have le: "linesize \<le> cur"
    using Suc.prems(6) by (simp add: word_le_nat_alt)
  then have cur': "unat (cur - linesize) = m * ?L"
    using Suc.prems(6) by (simp add: unat_sub)
  have "length (concat rows) = length rows * ?L"
    by (rule length_concat_uniform [OF Suc.prems(2)])
  moreover have "Suc m * ?L \<le> length rows * ?L"
    using mh by (intro mult_le_mono1) simp
  ultimately have inb: "unat (cur - linesize) + ?L \<le> length (concat rows)"
    by (simp add: cur')
  have row: "fetch (concat rows) (cur - linesize) linesize = Some (rows ! m)"
    using inb by (simp add: fetch_def cur' concat_uniform_nth [OF Suc.prems(2) mh])
  obtain w1 where w1: "writex fd (rows ! m) w = Some (0, w1)" "out w1 = out w @ rows ! m"
      "sink w1 = sink w" "events w1 = events w"
    using writex_never_fails [OF Suc.prems(1)] by blast
  have step: "write_data_rows fd (concat rows) linesize h y cur w =
      write_data_rows fd (concat rows) linesize h (y + 1) (cur - linesize) w1"
    by (subst write_data_rows.simps) (simp add: yh row w1(1))
  have "m = unat h - unat (y + 1)"
    using Suc.prems(4) y1 by simp
  moreover have "y + 1 \<le> h"
    using yh y1 by (simp add: word_le_nat_alt word_less_nat_alt)
  moreover have "never_fails (sink w1)"
    using Suc.prems(1) w1(3) by simp
  ultimately obtain w' where w': 
      "write_data_rows fd (concat rows) linesize h (y + 1) (cur - linesize) w1 = Some (Inr NO_ERROR, w')"
      "out w' = out w1 @ concat (rev (take m rows))" "sink w' = sink w1" "events w' = events w1"
    using Suc.IH [of w1 "y + 1" "cur - linesize"] Suc.prems(2,3) cur' by blast
  have "take (Suc m) rows = take m rows @ [rows ! m]"
    by (rule take_Suc_conv_app_nth [OF mh])
  with w' w1 step show ?case
    by simp
qed

text \<open>
  Whatever the sink and the buffer: the loop only appends to the output, and when it
  returns \<open>NO_ERROR\<close> over a well-behaved sink it has sent \<open>linesize\<close> bytes for each
  of the remaining rows. Over a sink that never fails it always returns.
\<close>

lemma write_data_rows_frame:
  "write_data_rows fd data linesize h y cur w = Some (res, w') \<Longrightarrow>
     sink w' = sink w \<and> events w' = events w \<and> (\<exists>q. out w' = out w @ q)"
proof (induction fd data linesize h y cur w rule: write_data_rows.induct)
  case (1 fd data linesize h y cur w)
  show ?case
  proof (cases "y < h")
    case False
    with 1(2) show ?thesis
      by (subst (asm) write_data_rows.simps) auto
  next
    case yh: True
    show ?thesis
    proof (cases "fetch data (cur - linesize) linesize")
      case None
      with 1(2) yh show ?thesis
        by (subst (asm) write_data_rows.simps) auto
    next
      case (Some row)
      show ?thesis
      proof (cases "writex fd row w")
        case None
        with 1(2) yh Some show ?thesis
          by (subst (asm) write_data_rows.simps) auto
      next
        case wx: (Some rw)
        obtain r w1 where rw: "rw = (r, w1)" by (cases rw)
        from writex_result [OF wx] rw have fr: "sink w1 = sink w" "events w1 = events w"
            "\<exists>q. out w1 = out w @ q"
          by auto
        show ?thesis
        proof (cases "r = 0")
          case False
          with 1(2) yh Some wx rw have "res = Inr (- errno w1)" "w' = w1"
            by (subst (asm) write_data_rows.simps; simp)+
          with fr show ?thesis by simp
        next
          case True
          with 1(2) yh Some wx rw
          have "write_data_rows fd data linesize h (y + 1) (cur - linesize) w1 = Some (res, w')"
            by (subst (asm) write_data_rows.simps) simp
          from 1(1) [OF yh refl Some wx rw [symmetric] _ this] True fr show ?thesis
            by auto
        qed
      qed
    qed
  qed
qed

lemma write_data_rows_count:
  "write_data_rows fd data linesize h y cur w = Some (Inr NO_ERROR, w') \<Longrightarrow>
   well_behaved (sink w) \<Longrightarrow> y \<le> h \<Longrightarrow>
     \<exists>pix. out w' = out w @ pix \<and> length pix = (unat h - unat y) * unat linesize"
proof (induction fd data linesize h y cur w rule: write_data_rows.induct)
  case (1 fd data linesize h y cur w)
  show ?case
  proof (cases "y < h")
    case False
    with 1(4) have "unat h - unat y = 0"
      by (simp add: word_less_nat_alt word_le_nat_alt)
    moreover from False 1(2) have "w' = w"
      by (subst (asm) write_data_rows.simps) simp
    ultimately show ?thesis by simp
  next
    case yh: True
    show ?thesis
    proof (cases "fetch data (cur - linesize) linesize")
      case None
      with 1(2) yh show ?thesis
        by (subst (asm) write_data_rows.simps) simp
    next
      case (Some row)
      show ?thesis
      proof (cases "writex fd row w")
        case None
        with 1(2) yh Some show ?thesis
          by (subst (asm) write_data_rows.simps) simp
      next
        case wx: (Some rw)
        obtain r w1 where rw: "rw = (r, w1)" by (cases rw)
        show ?thesis
        proof (cases "r = 0")
          case False
          with writex_failure_errno [OF wx 1(3)] rw have "errno w1 \<noteq> 0"
            by simp
          with 1(2) yh Some wx rw False show ?thesis
            by (subst (asm) write_data_rows.simps) (simp add: NO_ERROR_def)
        next
          case True
          with 1(2) yh Some wx rw
          have rec: "write_data_rows fd data linesize h (y + 1) (cur - linesize) w1 =
              Some (Inr NO_ERROR, w')"
            by (subst (asm) write_data_rows.simps) simp
          from writex_result [OF wx] rw True have w1: "sink w1 = sink w" "out w1 = out w @ row"
            by auto
          have y1: "unat (y + 1) = Suc (unat y)"
            by (rule unat_Suc_less [OF yh])
          then have le: "y + 1 \<le> h"
            using yh by (simp add: word_le_nat_alt word_less_nat_alt)
          from 1(3) w1 have "well_behaved (sink w1)"
            by simp
          from 1(1) [OF yh refl Some wx rw [symmetric] _ rec this le] True
          obtain pix where pix: "out w' = out w1 @ pix"
              "length pix = (unat h - unat (y + 1)) * unat linesize"
            by auto
          have "unat h - unat y = Suc (unat h - unat (y + 1))"
            using yh y1 by (simp add: word_less_nat_alt)
          with pix w1 fetch_length [OF Some] show ?thesis
            by (intro exI [of _ "row @ pix"]) simp
        qed
      qed
    qed
  qed
qed

text \<open>
  A loop that returns \<open>NO_ERROR\<close> has read every row inside the buffer, so the cursor
  never wrapped around: it started at least \<open>m\<close> rows above the start of the buffer.
\<close>

lemma write_data_rows_cursor:
  "write_data_rows fd data linesize h y cur w = Some (Inr NO_ERROR, w') \<Longrightarrow>
   well_behaved (sink w) \<Longrightarrow> length data < 2 ^ 32 \<Longrightarrow> y \<le> h \<Longrightarrow>
     (unat h - unat y) * unat linesize \<le> unat cur"
proof (induction fd data linesize h y cur w rule: write_data_rows.induct)
  case (1 fd data linesize h y cur w)
  show ?case
  proof (cases "y < h")
    case False
    with 1(5) have "unat h - unat y = 0"
      by (simp add: word_less_nat_alt word_le_nat_alt)
    then show ?thesis by simp
  next
    case yh: True
    show ?thesis
    proof (cases "fetch data (cur - linesize) linesize")
      case None
      with 1(2) yh show ?thesis
        by (subst (asm) write_data_rows.simps) simp
    next
      case (Some row)
      show ?thesis
      proof (cases "writex fd row w")
        case None
        with 1(2) yh Some show ?thesis
          by (subst (asm) write_data_rows.simps) simp
      next
        case wx: (Some rw)
        obtain r w1 where rw: "rw = (r, w1)" by (cases rw)
        show ?thesis
        proof (cases "r = 0")
          case False
          with writex_failure_errno [OF wx 1(3)] rw have "errno w1 \<noteq> 0"
            by simp
          with 1(2) yh Some wx rw False show ?thesis
            by (subst (asm) write_data_rows.simps) (simp add: NO_ERROR_def)
        next
          case True
          with 1(2) yh Some wx rw
          have rec: "write_data_rows fd data linesize h (y + 1) (cur - linesize) w1 =
              Some (Inr NO_ERROR, w')"
            by (subst (asm) write_data_rows.simps) simp
          from writex_result [OF wx] rw have "sink w1 = sink w"
            by simp
          with 1(3) have wb: "well_behaved (sink w1)"
            by simp
          have y1: "unat (y + 1) = Suc (unat y)"
            by (rule unat_Suc_less [OF yh])
          then have le: "y + 1 \<le> h"
            using yh by (simp add: word_le_nat_alt word_less_nat_alt)
          from 1(1) [OF yh refl Some wx rw [symmetric] _ rec wb 1(4) le] True
          have IH: "(unat h - unat (y + 1)) * unat linesize \<le> unat (cur - linesize)"
            by simp
          from Some have "unat (cur - linesize) + unat linesize \<le> length data"
            by (simp add: fetch_def split: if_splits)
          with 1(4) have "unat (cur - linesize) + unat linesize < 2 ^ LENGTH(32)"
            by simp
          then have "unat (cur - linesize + linesize) = unat (cur - linesize) + unat linesize"
            by (simp only: unat_add_lem)
          then have cur: "unat cur = unat (cur - linesize) + unat linesize"
            by simp
          have "unat h - unat y = Suc (unat h - unat (y + 1))"
            using yh y1 by (simp add: word_less_nat_alt)
          with IH cur show ?thesis
            by simp
        qed
      qed
    qed
  qed
qed


subsection \<open>\<open>write_data\<close>\<close>

text \<open>The same facts for the whole of \<open>write_data\<close>.\<close>

lemma write_data_frame:
  assumes "write_data fd info data len fbinfo0 w = Some (res, w')"
  shows "sink w' = sink w \<and> events w' = events w \<and> (\<exists>q. out w' = out w @ q)"
proof (cases "write_data_fbinfo info fbinfo0")
  case None
  with assms show ?thesis
    by (simp add: write_data_def)
next
  case (Some hdr)
  show ?thesis
  proof (cases "writex fd (fbinfo_bytes hdr) w")
    case None
    with assms Some show ?thesis
      by (simp add: write_data_def)
  next
    case wx: (Some rw)
    obtain r w1 where rw: "rw = (r, w1)" by (cases rw)
    from writex_result [OF wx] rw have fr: "sink w1 = sink w" "events w1 = events w"
        "\<exists>q. out w1 = out w @ q"
      by auto
    show ?thesis
    proof (cases "r = 0")
      case False
      with assms Some wx rw have "w' = w1"
        by (simp add: write_data_def)
      with fr show ?thesis by simp
    next
      case True
      with assms Some wx rw
      have "write_data_rows fd data (bytesPerPixel (pixelFormatInfo info) * info_w info)
          (info_h info) 0 (bytesPerPixel (pixelFormatInfo info) * info_w info * info_h info) w1 =
          Some (res, w')"
        by (simp add: write_data_def Let_def)
      from write_data_rows_frame [OF this] fr show ?thesis
        by auto
    qed
  qed
qed

lemma write_data_count:
  assumes run: "write_data fd info data len fbinfo0 w = Some (Inr NO_ERROR, w')"
    and wb: "well_behaved (sink w)"
  shows "\<exists>hdr pix. write_data_fbinfo info fbinfo0 = Some hdr \<and>
           out w' = out w @ fbinfo_bytes hdr @ pix \<and>
           length pix =
             unat (info_h info) * unat (bytesPerPixel (pixelFormatInfo info) * info_w info)"
proof (cases "write_data_fbinfo info fbinfo0")
  case None
  with run show ?thesis
    by (simp add: write_data_def BAD_VALUE_def NO_ERROR_def)
next
  case (Some hdr)
  show ?thesis
  proof (cases "writex fd (fbinfo_bytes hdr) w")
    case None
    with run Some show ?thesis
      by (simp add: write_data_def)
  next
    case wx: (Some rw)
    obtain r w1 where rw: "rw = (r, w1)" by (cases rw)
    show ?thesis
    proof (cases "r = 0")
      case False
      with writex_failure_errno [OF wx wb] rw have "errno w1 \<noteq> 0"
        by simp
      with run Some wx rw False show ?thesis
        by (simp add: write_data_def NO_ERROR_def)
    next
      case True
      with run Some wx rw
      have rows: "write_data_rows fd data (bytesPerPixel (pixelFormatInfo info) * info_w info)
          (info_h info) 0 (bytesPerPixel (pixelFormatInfo info) * info_w info * info_h info) w1 =
          Some (Inr NO_ERROR, w')"
        by (simp add: write_data_def Let_def)
      from writex_result [OF wx] rw True have w1: "sink w1 = sink w"
          "out w1 = out w @ fbinfo_bytes hdr"
        by auto
      with wb have "well_behaved (sink w1)"
        by simp
      from write_data_rows_count [OF rows this] w1 Some show ?thesis
        by auto
    qed
  qed
qed


lemma write_data_buffer:
  assumes nf: "never_fails (sink w)"
    and hdr: "write_data_fbinfo info fbinfo0 = Some hdr"
    and len: "length rows = unat (info_h info)"
    and uni: "\<forall>r\<in>set rows. length r = unat (bytesPerPixel (pixelFormatInfo info) * info_w info)"
    and fits: "length (concat rows) < 2 ^ 32"
  shows "\<exists>w'. write_data fd info (concat rows) len fbinfo0 w = Some (Inr NO_ERROR, w') \<and>
           out w' = out w @ fbinfo_bytes hdr @ concat (rev rows) \<and> events w' = events w"
proof -
  let ?linesize = "bytesPerPixel (pixelFormatInfo info) * info_w info"
  obtain w1 where w1: "writex fd (fbinfo_bytes hdr) w = Some (0, w1)"
      "out w1 = out w @ fbinfo_bytes hdr" "sink w1 = sink w" "events w1 = events w"
    using writex_never_fails [OF nf] by blast
  have "length (concat rows) = length rows * unat ?linesize"
    by (rule length_concat_uniform [OF uni])
  with fits len have "unat ?linesize * unat (info_h info) < 2 ^ LENGTH(32)"
    by (simp add: mult.commute)
  then have cur: "unat (?linesize * info_h info) = unat (info_h info) * unat ?linesize"
    by (simp only: unat_mult_lem mult.commute)
  from nf w1(3) have nf1: "never_fails (sink w1)"
    by simp
  have "\<exists>w'. write_data_rows fd (concat rows) ?linesize (info_h info) 0
        (?linesize * info_h info) w1 = Some (Inr NO_ERROR, w') \<and>
      out w' = out w1 @ concat (rev (take (unat (info_h info)) rows)) \<and>
      sink w' = sink w1 \<and> events w' = events w1"
    by (rule write_data_rows_reverse [OF nf1 uni len _ _ cur]) simp_all
  then obtain w' where w': "write_data_rows fd (concat rows) ?linesize (info_h info) 0
        (?linesize * info_h info) w1 = Some (Inr NO_ERROR, w')"
      "out w' = out w1 @ concat (rev (take (unat (info_h info)) rows))" "events w' = events w1"
    by blast
  have "write_data fd info (concat rows) len fbinfo0 w = Some (Inr NO_ERROR, w')"
    by (simp add: write_data_def hdr w1(1) w'(1))
  with w' w1 len show ?thesis
    by simp
qed

text \<open>
  Claim C2 says that the alpha offset and the alpha length of the header are 0. No
  statement of \<open>write_data\<close> assigns them, so the header carries what the stack slot
  held. With a slot full of \<open>0xDEADBEEF\<close> and an RGBA-8888 screen of 1 by 2, both
  fields of the header are \<open>0xDEADBEEF\<close>, and so are the two words at bytes 44 and 48
  of what a successful encode has sent.
\<close>

theorem write_data_alpha_uninitialised:
  "map_option alpha_offset
     (write_data_fbinfo (geometry PIXEL_FORMAT_RGBA_8888 4 1 2 0) (stale_fbinfo 0xDEADBEEF)) =
     Some 0xDEADBEEF \<and>
   map_option alpha_length
     (write_data_fbinfo (geometry PIXEL_FORMAT_RGBA_8888 4 1 2 0) (stale_fbinfo 0xDEADBEEF)) =
     Some 0xDEADBEEF \<and>
   (\<exists>w'. write_data STDOUT_FILENO (geometry PIXEL_FORMAT_RGBA_8888 4 1 2 0)
            [1, 2, 3, 4, 5, 6, 7, 8] 8 (stale_fbinfo 0xDEADBEEF) (world0 (\<lambda>n. Accept 64)) =
            Some (Inr NO_ERROR, w') \<and>
          field_at 44 (out w') = 0xDEADBEEF \<and> field_at 48 (out w') = 0xDEADBEEF)"
proof -
  let ?info = "geometry PIXEL_FORMAT_RGBA_8888 4 1 2 0"
  let ?w = "world0 (\<lambda>n. Accept 64)"
  have "\<exists>hdr. write_data_fbinfo ?info (stale_fbinfo 0xDEADBEEF) = Some hdr"
    by (rule write_data_fbinfo_supported) (simp add: geometry_def)
  then obtain hdr where hdr: "write_data_fbinfo ?info (stale_fbinfo 0xDEADBEEF) = Some hdr" ..
  then have alpha: "alpha_offset hdr = 0xDEADBEEF" "alpha_length hdr = 0xDEADBEEF"
    by (auto simp: write_data_fbinfo_def geometry_def stale_fbinfo_def)
  have "\<exists>w'. write_data STDOUT_FILENO ?info (concat [[1, 2, 3, 4], [5, 6, 7, 8]]) 8
      (stale_fbinfo 0xDEADBEEF) ?w = Some (Inr NO_ERROR, w') \<and>
      out w' = out ?w @ fbinfo_bytes hdr @ concat (rev [[1, 2, 3, 4], [5, 6, 7, 8]]) \<and>
      events w' = events ?w"
    by (rule write_data_buffer [OF _ hdr]) (simp_all add: world0_def never_fails_def geometry_def)
  then obtain w' where w': "write_data STDOUT_FILENO ?info [1, 2, 3, 4, 5, 6, 7, 8] 8
      (stale_fbinfo 0xDEADBEEF) ?w = Some (Inr NO_ERROR, w')"
    and "out w' = fbinfo_bytes hdr @ [5, 6, 7, 8, 1, 2, 3, 4]"
    by (auto simp: world0_def)
  with alpha field_at_alpha [of hdr "[5, 6, 7, 8, 1, 2, 3, 4]"]
  have "field_at 44 (out w') = 0xDEADBEEF \<and> field_at 48 (out w') = 0xDEADBEEF"
    by simp
  with w' hdr alpha show ?thesis
    by auto
qed

text \<open>
  Claim C6. For every geometry whose pixel format is neither RGBA-8888 nor RGB-565,
  \<open>write_data\<close> returns \<open>BAD_VALUE\<close>, which is not the success status, and leaves the
  world as it was: no call of \<open>write\<close> is made and no byte reaches the sink.
\<close>

theorem write_data_unsupported_format:
  assumes "format (pixelFormatInfo info) \<noteq> PIXEL_FORMAT_RGBA_8888"
    and "format (pixelFormatInfo info) \<noteq> PIXEL_FORMAT_RGB_565"
  shows "write_data fd info data len fbinfo0 w = Some (Inr BAD_VALUE, w) \<and> BAD_VALUE \<noteq> NO_ERROR"
proof -
  from assms have "format (pixelFormatInfo info) = PIXEL_FORMAT_UNKNOWN"
    by (cases "format (pixelFormatInfo info)") simp_all
  then show ?thesis
    by (simp add: write_data_def write_data_fbinfo_def BAD_VALUE_def NO_ERROR_def)
qed

theorem write_data_unsupported_format_witness:
  "write_data STDOUT_FILENO (geometry PIXEL_FORMAT_UNKNOWN 4 4 2 0) [1, 2, 3] 3 (stale_fbinfo 0)
     (world0 (\<lambda>n. Accept 1)) = Some (Inr BAD_VALUE, world0 (\<lambda>n. Accept 1)) \<and>
   out (world0 (\<lambda>n. Accept 1)) = [] \<and> BAD_VALUE \<noteq> NO_ERROR"
  using write_data_unsupported_format [of "geometry PIXEL_FORMAT_UNKNOWN 4 4 2 0"
      STDOUT_FILENO "[1, 2, 3]" 3 "stale_fbinfo 0" "world0 (\<lambda>n. Accept 1)"]
  by (simp add: geometry_def world0_def)

text \<open>
  Claim C4. Take a geometry whose pixel format is RGBA-8888 or RGB-565, and a buffer
  made of \<open>height\<close> rows of \<open>bytesPerPixel \<times> width\<close> bytes each (a buffer that fits
  in the address space, so shorter than \<open>2 ^ 32\<close> bytes), written to a sink that never
  fails. Then \<open>write_data\<close> returns \<open>NO_ERROR\<close>, and what it has sent is the header
  followed by the rows of the buffer in reversed order, each row as it was: nothing
  altered, dropped or sent twice. This holds for every height; when the height is 0 the
  header is all that is sent.
\<close>

theorem write_data_reverses_rows:
  assumes fmt: "format (pixelFormatInfo info) = PIXEL_FORMAT_RGBA_8888 \<or>
                format (pixelFormatInfo info) = PIXEL_FORMAT_RGB_565"
    and len: "length rows = unat (info_h info)"
    and uni: "\<forall>r\<in>set rows.
                length r = unat (bytesPerPixel (pixelFormatInfo info)) * unat (info_w info)"
    and fits: "length (concat rows) < 2 ^ 32"
    and nf: "never_fails (sink w)"
  shows "\<exists>hdr w'. write_data_fbinfo info fbinfo0 = Some hdr \<and>
           write_data fd info (concat rows) len fbinfo0 w = Some (Inr NO_ERROR, w') \<and>
           out w' = out w @ fbinfo_bytes hdr @ concat (rev rows) \<and>
           (info_h info = 0 \<longrightarrow> out w' = out w @ fbinfo_bytes hdr)"
proof -
  obtain hdr where hdr: "write_data_fbinfo info fbinfo0 = Some hdr"
    using write_data_fbinfo_supported [OF fmt] by blast
  have "\<forall>r\<in>set rows. length r = unat (bytesPerPixel (pixelFormatInfo info) * info_w info)"
    by (rule uniform_rows_linesize [OF uni fits])
  from write_data_buffer [OF nf hdr len this fits]
  obtain w' where w': "write_data fd info (concat rows) len fbinfo0 w = Some (Inr NO_ERROR, w')"
      "out w' = out w @ fbinfo_bytes hdr @ concat (rev rows)"
    by blast
  moreover have "info_h info = 0 \<longrightarrow> rows = []"
    using len by auto
  ultimately show ?thesis
    using hdr by auto
qed

theorem write_data_reverses_rows_witness:
  "\<exists>w'. write_data STDOUT_FILENO (geometry PIXEL_FORMAT_RGBA_8888 4 1 2 0)
           (concat [[1, 2, 3, 4], [5, 6, 7, 8]]) 8 (stale_fbinfo 0) (world0 (\<lambda>n. Accept 3)) =
           Some (Inr NO_ERROR, w') \<and>
         out w' =
           fbinfo_bytes \<lparr>version = 1, bpp = 32, size_bytes = 8, width = 1, height = 2,
             red_offset = 0, red_length = 8, blue_offset = 16, blue_length = 8,
             green_offset = 8, green_length = 8, alpha_offset = 0, alpha_length = 0\<rparr> @
           [5, 6, 7, 8, 1, 2, 3, 4]"
  using write_data_reverses_rows [of "geometry PIXEL_FORMAT_RGBA_8888 4 1 2 0"
      "[[1, 2, 3, 4], [5, 6, 7, 8]]" "world0 (\<lambda>n. Accept 3)" "stale_fbinfo 0" STDOUT_FILENO 8]
  by (simp add: geometry_def world0_def never_fails_def write_data_fbinfo_def stale_fbinfo_def
      DDMS_RAWIMAGE_VERSION_def)

text \<open>
  A buffer shorter than \<open>height\<close> rows of \<open>linesize\<close> bytes: line 118 puts the
  cursor \<open>linesize * h\<close> bytes after the start of the buffer, which is past its end,
  and the first row is read from there. The length of the buffer is never looked at.
\<close>

lemma write_data_short_buffer:
  assumes nf: "never_fails (sink w)"
    and hdr: "write_data_fbinfo info fbinfo0 = Some hdr"
    and short: "length data <
      unat (info_h info) * unat (bytesPerPixel (pixelFormatInfo info)) * unat (info_w info)"
    and fits: "unat (info_h info) * unat (bytesPerPixel (pixelFormatInfo info)) *
      unat (info_w info) < 2 ^ 32"
  shows "\<exists>w'. write_data fd info data len fbinfo0 w = Some (Inl OutOfBounds, w') \<and>
           out w' = out w @ fbinfo_bytes hdr"
proof -
  define b where "b = bytesPerPixel (pixelFormatInfo info)"
  define wd where "wd = info_w info"
  define h where "h = info_h info"
  define P where "P = unat b * unat wd"
  from short have hpos: "0 < unat h"
    unfolding h_def by (cases "unat (info_h info)") simp_all
  then obtain n where n: "unat h = Suc n"
    by (cases "unat h") simp_all
  from fits have tot: "unat h * P < 2 ^ 32"
    by (simp add: P_def b_def wd_def h_def mult.assoc)
  have "P \<le> unat h * P"
    by (simp add: n)
  also note tot
  finally have Pfits: "P < 2 ^ 32" .
  then have ls: "unat (b * wd) = P"
    unfolding P_def by (simp add: unat_mult_lem [THEN iffD1])
  from tot ls have "unat (b * wd) * unat h < 2 ^ 32"
    by (simp add: mult.commute)
  then have cur: "unat (b * wd * h) = P * unat h"
    using ls by (simp add: unat_mult_lem [THEN iffD1])
  have le: "unat (b * wd) \<le> unat (b * wd * h)"
    by (simp add: cur ls n)
  then have "b * wd \<le> b * wd * h"
    by (simp add: word_le_nat_alt)
  then have cur': "unat (b * wd * h - b * wd) = P * unat h - P"
    by (simp add: unat_sub cur ls)
  have "unat (b * wd * h - b * wd) + unat (b * wd) = P * unat h"
    by (simp add: cur' ls n)
  moreover from short have "length data < P * unat h"
    by (simp add: P_def b_def wd_def h_def mult_ac)
  ultimately have "\<not> unat (b * wd * h - b * wd) + unat (b * wd) \<le> length data"
    by linarith
  then have nofetch: "fetch data (b * wd * h - b * wd) (b * wd) = None"
    unfolding fetch_def by (rule if_not_P)
  from hpos have "0 < h"
    by (simp add: word_less_nat_alt)
  obtain w1 where w1: "writex fd (fbinfo_bytes hdr) w = Some (0, w1)"
      "out w1 = out w @ fbinfo_bytes hdr"
    using writex_never_fails [OF nf] by blast
  have "write_data_rows fd data (b * wd) h 0 (b * wd * h) w1 = Some (Inl OutOfBounds, w1)"
    using \<open>0 < h\<close> by (subst write_data_rows.simps) (simp add: nofetch)
  then have "write_data fd info data len fbinfo0 w = Some (Inl OutOfBounds, w1)"
    by (simp add: write_data_def hdr w1 b_def wd_def h_def)
  with w1 show ?thesis
    by blast
qed

text \<open>
  Claim C9. The argument \<open>len\<close> has no effect: two calls that differ in \<open>len\<close> alone
  are the same run, with the same bytes sent and the same result (or both never
  returning), whatever the buffer and the sink are. The number of pixel bytes is fixed by
  the geometry on the calls that complete, and only on them:

    \<^item> a call that returns \<open>NO_ERROR\<close> over a sink whose \<open>write\<close> never returns 0 nor
      fails with \<open>errno\<close> 0 has sent the header and then \<open>height\<close> rows of
      \<open>linesize\<close> bytes, where \<open>linesize\<close> is \<open>bytesPerPixel \<times> width\<close> modulo
      \<open>2 ^ 32\<close> (line 117), which is \<open>height \<times> bytesPerPixel \<times> width\<close> bytes
      when \<open>bytesPerPixel \<times> width\<close> is below \<open>2 ^ 32\<close>;

    \<^item> over a sink that never fails, a call on a buffer of \<open>height\<close> rows of
      \<open>bytesPerPixel \<times> width\<close> bytes returns \<open>NO_ERROR\<close>, having sent exactly
      \<open>height \<times> bytesPerPixel \<times> width\<close> pixel bytes;

    \<^item> over a sink that never fails, a call on a buffer of fewer than
      \<open>height \<times> bytesPerPixel \<times> width\<close> bytes sends the header and then reads
      outside the buffer, whatever \<open>len\<close> says.
\<close>

theorem write_data_ignores_len:
  "write_data fd info data len fbinfo0 w = write_data fd info data len' fbinfo0 w \<and>
   (\<forall>w'. well_behaved (sink w) \<and>
      write_data fd info data len fbinfo0 w = Some (Inr NO_ERROR, w') \<longrightarrow>
      (\<exists>hdr pix. write_data_fbinfo info fbinfo0 = Some hdr \<and>
         out w' = out w @ fbinfo_bytes hdr @ pix \<and>
         length pix =
           unat (info_h info) *
           ((unat (bytesPerPixel (pixelFormatInfo info)) * unat (info_w info)) mod 2 ^ 32) \<and>
         (unat (bytesPerPixel (pixelFormatInfo info)) * unat (info_w info) < 2 ^ 32 \<longrightarrow>
            length pix =
              unat (info_h info) * unat (bytesPerPixel (pixelFormatInfo info)) *
              unat (info_w info)))) \<and>
   ((format (pixelFormatInfo info) = PIXEL_FORMAT_RGBA_8888 \<or>
     format (pixelFormatInfo info) = PIXEL_FORMAT_RGB_565) \<and>
    length rows = unat (info_h info) \<and>
    (\<forall>r\<in>set rows.
       length r = unat (bytesPerPixel (pixelFormatInfo info)) * unat (info_w info)) \<and>
    length (concat rows) < 2 ^ 32 \<and> never_fails (sink w) \<longrightarrow>
      (\<exists>hdr pix w''. write_data_fbinfo info fbinfo0 = Some hdr \<and>
         write_data fd info (concat rows) len fbinfo0 w = Some (Inr NO_ERROR, w'') \<and>
         out w'' = out w @ fbinfo_bytes hdr @ pix \<and>
         length pix =
           unat (info_h info) * unat (bytesPerPixel (pixelFormatInfo info)) *
           unat (info_w info))) \<and>
   ((format (pixelFormatInfo info) = PIXEL_FORMAT_RGBA_8888 \<or>
     format (pixelFormatInfo info) = PIXEL_FORMAT_RGB_565) \<and>
    length data <
      unat (info_h info) * unat (bytesPerPixel (pixelFormatInfo info)) * unat (info_w info) \<and>
    unat (info_h info) * unat (bytesPerPixel (pixelFormatInfo info)) * unat (info_w info)
      < 2 ^ 32 \<and>
    never_fails (sink w) \<longrightarrow>
      (\<exists>hdr w''. write_data_fbinfo info fbinfo0 = Some hdr \<and>
         write_data fd info data len fbinfo0 w = Some (Inl OutOfBounds, w'') \<and>
         out w'' = out w @ fbinfo_bytes hdr))"
proof (intro conjI impI allI)
  show "write_data fd info data len fbinfo0 w = write_data fd info data len' fbinfo0 w"
    by (simp add: write_data_def)
next
  fix w'
  assume "well_behaved (sink w) \<and> write_data fd info data len fbinfo0 w = Some (Inr NO_ERROR, w')"
  then obtain hdr pix where hdr: "write_data_fbinfo info fbinfo0 = Some hdr"
    and out: "out w' = out w @ fbinfo_bytes hdr @ pix"
    and cnt: "length pix =
      unat (info_h info) * unat (bytesPerPixel (pixelFormatInfo info) * info_w info)"
    using write_data_count by blast
  have "unat (bytesPerPixel (pixelFormatInfo info) * info_w info) =
      (unat (bytesPerPixel (pixelFormatInfo info)) * unat (info_w info)) mod 2 ^ 32"
    by (simp add: unat_word_ariths)
  with cnt have c1: "length pix = unat (info_h info) *
      ((unat (bytesPerPixel (pixelFormatInfo info)) * unat (info_w info)) mod 2 ^ 32)"
    by simp
  then have c2: "unat (bytesPerPixel (pixelFormatInfo info)) * unat (info_w info) < 2 ^ 32 \<longrightarrow>
      length pix = unat (info_h info) * unat (bytesPerPixel (pixelFormatInfo info)) *
        unat (info_w info)"
    by (simp add: mult.assoc)
  from hdr out c1 c2 show "\<exists>hdr pix. write_data_fbinfo info fbinfo0 = Some hdr \<and>
         out w' = out w @ fbinfo_bytes hdr @ pix \<and>
         length pix =
           unat (info_h info) *
           ((unat (bytesPerPixel (pixelFormatInfo info)) * unat (info_w info)) mod 2 ^ 32) \<and>
         (unat (bytesPerPixel (pixelFormatInfo info)) * unat (info_w info) < 2 ^ 32 \<longrightarrow>
            length pix =
              unat (info_h info) * unat (bytesPerPixel (pixelFormatInfo info)) *
              unat (info_w info))"
    by blast
next
  assume a: "(format (pixelFormatInfo info) = PIXEL_FORMAT_RGBA_8888 \<or>
     format (pixelFormatInfo info) = PIXEL_FORMAT_RGB_565) \<and>
    length rows = unat (info_h info) \<and>
    (\<forall>r\<in>set rows.
       length r = unat (bytesPerPixel (pixelFormatInfo info)) * unat (info_w info)) \<and>
    length (concat rows) < 2 ^ 32 \<and> never_fails (sink w)"
  then obtain hdr where hdr: "write_data_fbinfo info fbinfo0 = Some hdr"
    using write_data_fbinfo_supported by blast
  from a have uni: "\<forall>r\<in>set rows.
      length r = unat (bytesPerPixel (pixelFormatInfo info)) * unat (info_w info)"
    and fits: "length (concat rows) < 2 ^ 32" and len: "length rows = unat (info_h info)"
    and nf: "never_fails (sink w)"
    by simp_all
  have "\<forall>r\<in>set rows. length r = unat (bytesPerPixel (pixelFormatInfo info) * info_w info)"
    by (rule uniform_rows_linesize [OF uni fits])
  from write_data_buffer [OF nf hdr len this fits]
  obtain w'' where w'': "write_data fd info (concat rows) len fbinfo0 w = Some (Inr NO_ERROR, w'')"
      "out w'' = out w @ fbinfo_bytes hdr @ concat (rev rows)"
    by blast
  have "length (concat (rev rows)) =
      length (rev rows) * (unat (bytesPerPixel (pixelFormatInfo info)) * unat (info_w info))"
    by (rule length_concat_uniform) (simp add: uni)
  with len have "length (concat (rev rows)) =
      unat (info_h info) * unat (bytesPerPixel (pixelFormatInfo info)) * unat (info_w info)"
    by (simp add: mult.assoc)
  with hdr w'' show "\<exists>hdr pix w''. write_data_fbinfo info fbinfo0 = Some hdr \<and>
         write_data fd info (concat rows) len fbinfo0 w = Some (Inr NO_ERROR, w'') \<and>
         out w'' = out w @ fbinfo_bytes hdr @ pix \<and>
         length pix =
           unat (info_h info) * unat (bytesPerPixel (pixelFormatInfo info)) * unat (info_w info)"
    by blast
next
  assume a: "(format (pixelFormatInfo info) = PIXEL_FORMAT_RGBA_8888 \<or>
     format (pixelFormatInfo info) = PIXEL_FORMAT_RGB_565) \<and>
    length data <
      unat (info_h info) * unat (bytesPerPixel (pixelFormatInfo info)) * unat (info_w info) \<and>
    unat (info_h info) * unat (bytesPerPixel (pixelFormatInfo info)) * unat (info_w info)
      < 2 ^ 32 \<and>
    never_fails (sink w)"
  then obtain hdr where hdr: "write_data_fbinfo info fbinfo0 = Some hdr"
    using write_data_fbinfo_supported by blast
  from a have nf: "never_fails (sink w)"
    and short: "length data <
      unat (info_h info) * unat (bytesPerPixel (pixelFormatInfo info)) * unat (info_w info)"
    and fits: "unat (info_h info) * unat (bytesPerPixel (pixelFormatInfo info)) *
      unat (info_w info) < 2 ^ 32"
    by simp_all
  from write_data_short_buffer [OF nf hdr short fits] hdr
  show "\<exists>hdr w''. write_data_fbinfo info fbinfo0 = Some hdr \<and>
         write_data fd info data len fbinfo0 w = Some (Inl OutOfBounds, w'') \<and>
         out w'' = out w @ fbinfo_bytes hdr"
    by blast
qed

theorem write_data_ignores_len_witness:
  "write_data STDOUT_FILENO (geometry PIXEL_FORMAT_RGB_565 2 2 2 0) [1, 2, 3, 4, 5, 6, 7, 8] 0
     (stale_fbinfo 0) (world0 (\<lambda>n. Accept 5)) =
   write_data STDOUT_FILENO (geometry PIXEL_FORMAT_RGB_565 2 2 2 0) [1, 2, 3, 4, 5, 6, 7, 8] 1000
     (stale_fbinfo 0) (world0 (\<lambda>n. Accept 5)) \<and>
   (\<exists>hdr pix w'.
      write_data_fbinfo (geometry PIXEL_FORMAT_RGB_565 2 2 2 0) (stale_fbinfo 0) = Some hdr \<and>
      write_data STDOUT_FILENO (geometry PIXEL_FORMAT_RGB_565 2 2 2 0) [1, 2, 3, 4, 5, 6, 7, 8] 0
        (stale_fbinfo 0) (world0 (\<lambda>n. Accept 5)) = Some (Inr NO_ERROR, w') \<and>
      out w' = fbinfo_bytes hdr @ pix \<and> length pix = 8) \<and>
   (\<exists>hdr w'.
      write_data_fbinfo (geometry PIXEL_FORMAT_RGB_565 2 2 2 0) (stale_fbinfo 0) = Some hdr \<and>
      write_data STDOUT_FILENO (geometry PIXEL_FORMAT_RGB_565 2 2 2 0) [1, 2, 3, 4] 4
        (stale_fbinfo 0) (world0 (\<lambda>n. Accept 5)) = Some (Inl OutOfBounds, w') \<and>
      out w' = fbinfo_bytes hdr)"
proof -
  let ?info = "geometry PIXEL_FORMAT_RGB_565 2 2 2 0"
  let ?w = "world0 (\<lambda>n. Accept 5)"
  note full = write_data_ignores_len [where fd = STDOUT_FILENO and info = ?info
      and data = "[1, 2, 3, 4, 5, 6, 7, 8]" and len = 0 and len' = 1000
      and ?fbinfo0.0 = "stale_fbinfo 0" and w = ?w and rows = "[[1, 2, 3, 4], [5, 6, 7, 8]]"]
  note short = write_data_ignores_len [where fd = STDOUT_FILENO and info = ?info
      and data = "[1, 2, 3, 4]" and len = 4 and len' = 8
      and ?fbinfo0.0 = "stale_fbinfo 0" and w = ?w and rows = "[]"]
  note same = full [THEN conjunct1]
  note count = full [THEN conjunct2, THEN conjunct1]
  note completes = full [THEN conjunct2, THEN conjunct2, THEN conjunct1]
  note outside = short [THEN conjunct2, THEN conjunct2, THEN conjunct2]
  have nf: "never_fails (sink ?w)"
    by (simp add: never_fails_def world0_def)
  have wb: "well_behaved (sink ?w)"
    by (simp add: well_behaved_def world0_def)
  from completes nf obtain w' where run:
      "write_data STDOUT_FILENO ?info (concat [[1, 2, 3, 4], [5, 6, 7, 8]]) 0
         (stale_fbinfo 0) ?w = Some (Inr NO_ERROR, w')"
    by (auto simp: geometry_def)
  then have run': "write_data STDOUT_FILENO ?info [1, 2, 3, 4, 5, 6, 7, 8] 0
      (stale_fbinfo 0) ?w = Some (Inr NO_ERROR, w')"
    by simp
  from count wb run' obtain hdr pix where
      "write_data_fbinfo ?info (stale_fbinfo 0) = Some hdr"
      "out w' = out ?w @ fbinfo_bytes hdr @ pix"
      "length pix = unat (info_h ?info) *
         ((unat (bytesPerPixel (pixelFormatInfo ?info)) * unat (info_w ?info)) mod 2 ^ 32)"
    by blast
  then have "write_data_fbinfo ?info (stale_fbinfo 0) = Some hdr \<and>
      write_data STDOUT_FILENO ?info [1, 2, 3, 4, 5, 6, 7, 8] 0 (stale_fbinfo 0) ?w =
        Some (Inr NO_ERROR, w') \<and>
      out w' = fbinfo_bytes hdr @ pix \<and> length pix = 8"
    using run' by (simp add: geometry_def world0_def)
  then have second: "\<exists>hdr pix w'.
      write_data_fbinfo ?info (stale_fbinfo 0) = Some hdr \<and>
      write_data STDOUT_FILENO ?info [1, 2, 3, 4, 5, 6, 7, 8] 0 (stale_fbinfo 0) ?w =
        Some (Inr NO_ERROR, w') \<and>
      out w' = fbinfo_bytes hdr @ pix \<and> length pix = 8"
    by blast
  from outside nf have third: "\<exists>hdr w'.
      write_data_fbinfo ?info (stale_fbinfo 0) = Some hdr \<and>
      write_data STDOUT_FILENO ?info [1, 2, 3, 4] 4 (stale_fbinfo 0) ?w =
        Some (Inl OutOfBounds, w') \<and>
      out w' = fbinfo_bytes hdr"
    by (auto simp: geometry_def world0_def)
  from same second third show ?thesis
    by blast
qed

text \<open>
  Claim C9 as stated has the pixel bytes always number
  \<open>height \<times> bytesPerPixel \<times> width\<close>. A call stops at the first \<open>write\<close> that
  fails (lines 122--124): on a 1 by 2 geometry of 4 bytes per pixel, with a sink that takes the
  header and then fails with \<open>errno\<close> 32, the call returns \<open>- 32\<close> having sent no
  pixel byte, not 8. And \<open>linesize\<close> is a \<open>size_t\<close>: on a geometry of width
  \<open>2 ^ 30 + 1\<close>, height 1 and 4 bytes per pixel it is 4, and the call returns
  \<open>NO_ERROR\<close> having sent 4 pixel bytes, not 4294967300.
\<close>

theorem write_data_pixel_count_counterexample:
  "(\<exists>hdr w'.
      write_data_fbinfo (geometry PIXEL_FORMAT_RGBA_8888 4 1 2 0) (stale_fbinfo 0) = Some hdr \<and>
      write_data STDOUT_FILENO (geometry PIXEL_FORMAT_RGBA_8888 4 1 2 0)
        [1, 2, 3, 4, 5, 6, 7, 8] 8 (stale_fbinfo 0)
        (world0 (\<lambda>n. if n = 0 then Accept 52 else Fail 32)) = Some (Inr (- 32), w') \<and>
      out w' = fbinfo_bytes hdr) \<and>
   unat (info_h (geometry PIXEL_FORMAT_RGBA_8888 4 1 2 0)) *
     unat (bytesPerPixel (pixelFormatInfo (geometry PIXEL_FORMAT_RGBA_8888 4 1 2 0))) *
     unat (info_w (geometry PIXEL_FORMAT_RGBA_8888 4 1 2 0)) = 8 \<and>
   (\<exists>hdr w'.
      write_data_fbinfo (geometry PIXEL_FORMAT_RGBA_8888 4 1073741825 1 0) (stale_fbinfo 0) =
        Some hdr \<and>
      write_data STDOUT_FILENO (geometry PIXEL_FORMAT_RGBA_8888 4 1073741825 1 0) [1, 2, 3, 4] 4
        (stale_fbinfo 0) (world0 (\<lambda>n. Accept 52)) = Some (Inr NO_ERROR, w') \<and>
      out w' = fbinfo_bytes hdr @ [1, 2, 3, 4]) \<and>
   unat (info_h (geometry PIXEL_FORMAT_RGBA_8888 4 1073741825 1 0)) *
     unat (bytesPerPixel (pixelFormatInfo (geometry PIXEL_FORMAT_RGBA_8888 4 1073741825 1 0))) *
     unat (info_w (geometry PIXEL_FORMAT_RGBA_8888 4 1073741825 1 0)) = 4294967300"
proof (intro conjI)
  let ?s = "\<lambda>n::nat. if n = 0 then Accept 52 else Fail 32"
  let ?info = "geometry PIXEL_FORMAT_RGBA_8888 4 1 2 0"
  let ?w = "world0 ?s"
  have "\<exists>hdr. write_data_fbinfo ?info (stale_fbinfo 0) = Some hdr"
    by (rule write_data_fbinfo_supported) (simp add: geometry_def)
  then obtain hdr where hdr: "write_data_fbinfo ?info (stale_fbinfo 0) = Some hdr" ..
  let ?w1 = "?w\<lparr>calls := Suc 0, out := fbinfo_bytes hdr\<rparr>"
  have ne: "fbinfo_bytes hdr \<noteq> []"
    using length_fbinfo_bytes [of hdr] by auto
  have "writex STDOUT_FILENO (fbinfo_bytes hdr) ?w = writex STDOUT_FILENO [] ?w1"
    using ne by (subst writex.simps)
      (simp add: sys_write_def length_fbinfo_bytes SSIZE_MAX_def world0_def)
  then have w1: "writex STDOUT_FILENO (fbinfo_bytes hdr) ?w = Some (0, ?w1)"
    by (simp add: writex_Nil)
  have row: "fetch [1, 2, 3, 4, 5, 6, 7, 8] 4 (4 :: 32 word) = Some [5, 6, 7, 8]"
    by (simp add: fetch_def)
  have w2: "writex STDOUT_FILENO [5, 6, 7, 8] ?w1 =
      Some (- 1, ?w1\<lparr>calls := Suc (calls ?w1), errno := 32\<rparr>)"
    by (rule writex_terminal_error) (simp_all add: world0_def EINTR_def)
  have "write_data_rows STDOUT_FILENO [1, 2, 3, 4, 5, 6, 7, 8] 4 2 0 8 ?w1 =
      Some (Inr (- 32), ?w1\<lparr>calls := Suc (calls ?w1), errno := 32\<rparr>)"
    by (subst write_data_rows.simps) (simp add: row w2)
  then have "write_data STDOUT_FILENO ?info [1, 2, 3, 4, 5, 6, 7, 8] 8 (stale_fbinfo 0) ?w =
      Some (Inr (- 32), ?w1\<lparr>calls := Suc (calls ?w1), errno := 32\<rparr>)"
    by (simp add: write_data_def hdr w1) (simp add: geometry_def)
  with hdr show "\<exists>hdr w'. write_data_fbinfo ?info (stale_fbinfo 0) = Some hdr \<and>
      write_data STDOUT_FILENO ?info [1, 2, 3, 4, 5, 6, 7, 8] 8 (stale_fbinfo 0) ?w =
        Some (Inr (- 32), w') \<and> out w' = fbinfo_bytes hdr"
    by simp
next
  show "unat (info_h (geometry PIXEL_FORMAT_RGBA_8888 4 1 2 0)) *
     unat (bytesPerPixel (pixelFormatInfo (geometry PIXEL_FORMAT_RGBA_8888 4 1 2 0))) *
     unat (info_w (geometry PIXEL_FORMAT_RGBA_8888 4 1 2 0)) = 8"
    by (simp add: geometry_def)
next
  let ?info = "geometry PIXEL_FORMAT_RGBA_8888 4 1073741825 1 0"
  let ?w = "world0 (\<lambda>n. Accept 52)"
  have "\<exists>hdr. write_data_fbinfo ?info (stale_fbinfo 0) = Some hdr"
    by (rule write_data_fbinfo_supported) (simp add: geometry_def)
  then obtain hdr where hdr: "write_data_fbinfo ?info (stale_fbinfo 0) = Some hdr" ..
  have "\<exists>w'. write_data STDOUT_FILENO ?info (concat [[1, 2, 3, 4]]) 4 (stale_fbinfo 0) ?w =
        Some (Inr NO_ERROR, w') \<and>
      out w' = out ?w @ fbinfo_bytes hdr @ concat (rev [[1, 2, 3, 4]]) \<and> events w' = events ?w"
    by (rule write_data_buffer [OF _ hdr]) (simp_all add: world0_def never_fails_def geometry_def)
  with hdr show "\<exists>hdr w'. write_data_fbinfo ?info (stale_fbinfo 0) = Some hdr \<and>
      write_data STDOUT_FILENO ?info [1, 2, 3, 4] 4 (stale_fbinfo 0) ?w =
        Some (Inr NO_ERROR, w') \<and> out w' = fbinfo_bytes hdr @ [1, 2, 3, 4]"
    by (auto simp: world0_def)
next
  show "unat (info_h (geometry PIXEL_FORMAT_RGBA_8888 4 1073741825 1 0)) *
     unat (bytesPerPixel (pixelFormatInfo (geometry PIXEL_FORMAT_RGBA_8888 4 1073741825 1 0))) *
     unat (info_w (geometry PIXEL_FORMAT_RGBA_8888 4 1073741825 1 0)) = 4294967300"
    by (simp add: geometry_def)
qed

text \<open>
  For a buffer that matches the geometry and a sink that never fails, the pixel bytes sent
  are as many as the size field of the header says, and that is
  \<open>width \<times> height \<times> bytesPerPixel\<close>.
\<close>

lemma write_data_size_field:
  assumes fmt: "format (pixelFormatInfo info) = PIXEL_FORMAT_RGBA_8888 \<or>
                format (pixelFormatInfo info) = PIXEL_FORMAT_RGB_565"
    and len: "length rows = unat (info_h info)"
    and uni: "\<forall>r\<in>set rows.
                length r = unat (bytesPerPixel (pixelFormatInfo info)) * unat (info_w info)"
    and fits: "length (concat rows) < 2 ^ 32"
    and nf: "never_fails (sink w)"
  shows "\<exists>hdr pix w'. write_data_fbinfo info fbinfo0 = Some hdr \<and>
           write_data fd info (concat rows) len fbinfo0 w = Some (Inr NO_ERROR, w') \<and>
           out w' = out w @ fbinfo_bytes hdr @ pix \<and>
           length pix = unat (size_bytes hdr) \<and>
           unat (size_bytes hdr) =
             unat (info_w info) * unat (info_h info) * unat (bytesPerPixel (pixelFormatInfo info))"
proof -
  let ?b = "bytesPerPixel (pixelFormatInfo info)"
  obtain hdr where hdr: "write_data_fbinfo info fbinfo0 = Some hdr"
    using write_data_fbinfo_supported [OF fmt] by blast
  have "\<forall>r\<in>set rows. length r = unat (?b * info_w info)"
    by (rule uniform_rows_linesize [OF uni fits])
  from write_data_buffer [OF nf hdr len this fits]
  obtain w' where w': "write_data fd info (concat rows) len fbinfo0 w = Some (Inr NO_ERROR, w')"
      "out w' = out w @ fbinfo_bytes hdr @ concat (rev rows)"
    by blast
  have total: "length (concat rows) = length rows * (unat ?b * unat (info_w info))"
    by (rule length_concat_uniform [OF uni])
  then have prod: "length (concat rows) = unat (info_w info) * unat (info_h info) * unat ?b"
    using len by (simp add: mult_ac)
  have "unat (size_bytes hdr) = (unat (info_w info) * unat (info_h info) * unat ?b) mod 2 ^ 32"
    by (simp add: write_data_fbinfo_size [OF hdr] unat_word_ariths mod_mult_left_eq)
  also have "\<dots> = unat (info_w info) * unat (info_h info) * unat ?b"
    using fits prod by simp
  finally have sz: "unat (size_bytes hdr) = unat (info_w info) * unat (info_h info) * unat ?b" .
  have "length (concat (rev rows)) = length (concat rows)"
    by (simp add: length_concat rev_map [symmetric])
  with sz prod have "length (concat (rev rows)) = unat (size_bytes hdr)"
    by simp
  with hdr w' sz show ?thesis
    by blast
qed

text \<open>
  More generally, for every buffer shorter than \<open>2 ^ 32\<close> bytes and every well-behaved
  sink: a call that returns \<open>NO_ERROR\<close> has sent as many pixel bytes as the size field
  of its header says, which is \<open>width \<times> height \<times> bytesPerPixel\<close> modulo \<open>2 ^ 32\<close>.
\<close>

lemma write_data_success_size:
  assumes run: "write_data fd info data len fbinfo0 w = Some (Inr NO_ERROR, w')"
    and wb: "well_behaved (sink w)"
    and fits: "length data < 2 ^ 32"
  shows "\<exists>hdr pix. write_data_fbinfo info fbinfo0 = Some hdr \<and>
           out w' = out w @ fbinfo_bytes hdr @ pix \<and>
           length pix = unat (size_bytes hdr) \<and>
           unat (size_bytes hdr) =
             (unat (info_w info) * unat (info_h info) *
              unat (bytesPerPixel (pixelFormatInfo info))) mod 2 ^ 32"
proof -
  let ?b = "bytesPerPixel (pixelFormatInfo info)"
  let ?L = "?b * info_w info"
  from write_data_count [OF run wb]
  obtain hdr pix where hdr: "write_data_fbinfo info fbinfo0 = Some hdr"
    and out: "out w' = out w @ fbinfo_bytes hdr @ pix"
    and cnt: "length pix = unat (info_h info) * unat ?L"
    by blast
  have sz: "size_bytes hdr = ?L * info_h info"
    by (simp add: write_data_fbinfo_size [OF hdr] mult_ac)
  obtain w1 where w1: "writex fd (fbinfo_bytes hdr) w = Some (0, w1)"
    and rows: "write_data_rows fd data ?L (info_h info) 0 (?L * info_h info) w1 =
      Some (Inr NO_ERROR, w')"
  proof (cases "writex fd (fbinfo_bytes hdr) w")
    case None
    with run hdr show ?thesis
      by (simp add: write_data_def)
  next
    case wx: (Some rw)
    obtain r w1 where rw: "rw = (r, w1)" by (cases rw)
    show ?thesis
    proof (cases "r = 0")
      case False
      with writex_failure_errno [OF wx wb] rw have "errno w1 \<noteq> 0"
        by simp
      with run hdr wx rw False show ?thesis
        by (simp add: write_data_def NO_ERROR_def)
    next
      case True
      with run hdr wx rw that show ?thesis
        by (simp add: write_data_def Let_def)
    qed
  qed
  from writex_result [OF w1] wb have "well_behaved (sink w1)"
    by simp
  from write_data_rows_cursor [OF rows this fits]
  have "unat (info_h info) * unat ?L \<le> unat (?L * info_h info)"
    by simp
  moreover have "unat (?L * info_h info) = (unat ?L * unat (info_h info)) mod 2 ^ 32"
    by (simp add: unat_word_ariths)
  moreover have "(unat ?L * unat (info_h info)) mod 2 ^ 32 \<le> unat ?L * unat (info_h info)"
    by (rule mod_less_eq_dividend)
  ultimately have "unat (?L * info_h info) = unat (info_h info) * unat ?L"
    by (simp add: mult.commute)
  with cnt sz have "length pix = unat (size_bytes hdr)"
    by simp
  moreover have "unat (size_bytes hdr) =
      (unat (info_w info) * unat (info_h info) * unat ?b) mod 2 ^ 32"
    by (simp add: write_data_fbinfo_size [OF hdr] unat_word_ariths mod_mult_left_eq)
  ultimately show ?thesis
    using hdr out by blast
qed

subsection \<open>\<open>main\<close>\<close>

text \<open>
  \<open>main\<close> once the region is created and mapped: what it returns when the capture
  fails, when the encoder fails, and when both succeed.
\<close>

lemma main_reaches_write_data:
  assumes "getDisplayInfo e = (0, info)"
    and "ashmem_create_region e = (fb_fd, ea)" and "0 \<le> fb_fd"
    and "mmap e = (True, eb)"
    and "grabScreen e = (0, frame)"
    and "fb_size = info_w (undo_orientation info) * info_h (undo_orientation info) *
           bytesPerPixel (pixelFormatInfo (undo_orientation info))"
    and "w2 = w\<lparr>events := events w @ [AshmemCreate fb_size, Mmap fb_size]\<rparr>"
  shows "main e w =
     (case write_data STDOUT_FILENO (undo_orientation info) (mapped_frame fb_size frame) fb_size
             (stack_fbinfo e) w2 of
        None \<Rightarrow> None
      | Some (Inl f, w3) \<Rightarrow> Some (Inl f, w3)
      | Some (Inr err, w3) \<Rightarrow>
          if err \<noteq> 0 then Some (Inr (- 1), w3)
          else Some (Inr 0,
                 w3\<lparr>errno := (if fst (munmap e) < 0 then snd (munmap e) else errno w3),
                    events := events w3 @ [Munmap fb_size, CloseFd fb_fd]\<rparr>))"
  using assms by (auto simp: main_def Let_def split_beta split: option.splits sum.splits)

lemma main_capture_fails:
  assumes "getDisplayInfo e = (0, info)"
    and "ashmem_create_region e = (fb_fd, ea)" and "0 \<le> fb_fd"
    and "mmap e = (True, eb)"
    and "grabScreen e = (err, frame)" and "err \<noteq> 0"
    and "fb_size = info_w (undo_orientation info) * info_h (undo_orientation info) *
           bytesPerPixel (pixelFormatInfo (undo_orientation info))"
  shows "main e w =
     Some (Inr (- 1), w\<lparr>events := events w @ [AshmemCreate fb_size, Mmap fb_size]\<rparr>)"
  using assms by (simp add: main_def Let_def)

lemma main_encode_fails:
  assumes "getDisplayInfo e = (0, info)"
    and "ashmem_create_region e = (fb_fd, ea)" and "0 \<le> fb_fd"
    and "mmap e = (True, eb)"
    and "grabScreen e = (0, frame)"
    and "fb_size = info_w (undo_orientation info) * info_h (undo_orientation info) *
           bytesPerPixel (pixelFormatInfo (undo_orientation info))"
    and "write_data STDOUT_FILENO (undo_orientation info) (mapped_frame fb_size frame) fb_size
           (stack_fbinfo e) (w\<lparr>events := events w @ [AshmemCreate fb_size, Mmap fb_size]\<rparr>) =
         Some (Inr err, w3)"
    and "err \<noteq> 0"
  shows "main e w = Some (Inr (- 1), w3) \<and>
         events w3 = events w @ [AshmemCreate fb_size, Mmap fb_size]"
  using main_reaches_write_data [OF assms(1-6) refl, of w] assms(7,8)
    write_data_frame [OF assms(7)]
  by simp

lemma main_success:
  assumes "getDisplayInfo e = (0, info)"
    and "ashmem_create_region e = (fb_fd, ea)" and "0 \<le> fb_fd"
    and "mmap e = (True, eb)"
    and "grabScreen e = (0, frame)"
    and "fb_size = info_w (undo_orientation info) * info_h (undo_orientation info) *
           bytesPerPixel (pixelFormatInfo (undo_orientation info))"
    and "write_data STDOUT_FILENO (undo_orientation info) (mapped_frame fb_size frame) fb_size
           (stack_fbinfo e) (w\<lparr>events := events w @ [AshmemCreate fb_size, Mmap fb_size]\<rparr>) =
         Some (Inr 0, w3)"
  shows "\<exists>w'. main e w = Some (Inr 0, w') \<and> out w' = out w3 \<and>
         events w' = events w @ [AshmemCreate fb_size, Mmap fb_size, Munmap fb_size, CloseFd fb_fd]"
  using main_reaches_write_data [OF assms(1-6) refl, of w] assms(7)
    write_data_frame [OF assms(7)]
  by simp

text \<open>
  Claim C10 says that after every successful encode the pixel bytes sent are as many as
  the size field announces. When a call of \<open>write\<close> returns 0, \<open>writex\<close> reports
  failure, and \<open>write_data\<close> then returns \<open>-errno\<close> (lines 108--111 and 122--125);
  but a call that returns 0 does not set \<open>errno\<close>, so with \<open>errno\<close> still 0 the
  status returned is 0, which is \<open>NO_ERROR\<close>. Here the sink takes the header of a 1 by
  2 RGBA-8888 screen and then answers 0: the encode reports success, the header it has
  sent announces 8 bytes, and no pixel byte follows it. \<open>main\<close> takes the status for
  success too and exits with 0, its output the bare header.
\<close>

theorem write_data_zero_write_reports_success:
  "write_data STDOUT_FILENO (geometry PIXEL_FORMAT_RGBA_8888 4 1 2 0) [1, 2, 3, 4, 5, 6, 7, 8] 8
     (stale_fbinfo 0) (world0 (\<lambda>n. if n = 0 then Accept 64 else Accept 0)) =
     Some (Inr NO_ERROR,
       (world0 (\<lambda>n. if n = 0 then Accept 64 else Accept 0))
         \<lparr>calls := 2,
          out := fbinfo_bytes \<lparr>version = 1, bpp = 32, size_bytes = 8, width = 1, height = 2,
            red_offset = 0, red_length = 8, blue_offset = 16, blue_length = 8,
            green_offset = 8, green_length = 8, alpha_offset = 0, alpha_length = 0\<rparr>\<rparr>) \<and>
   (\<exists>w'. main (screen_env 0 PIXEL_FORMAT_RGBA_8888 0)
            (world0 (\<lambda>n. if n = 0 then Accept 64 else Accept 0)) = Some (Inr 0, w') \<and>
          out w' = fbinfo_bytes \<lparr>version = 1, bpp = 32, size_bytes = 8, width = 1, height = 2,
            red_offset = 0, red_length = 8, blue_offset = 16, blue_length = 8,
            green_offset = 8, green_length = 8, alpha_offset = 0, alpha_length = 0\<rparr>)"
proof -
  let ?s = "\<lambda>n::nat. if n = 0 then Accept 64 else Accept 0"
  let ?info = "geometry PIXEL_FORMAT_RGBA_8888 4 1 2 0"
  let ?hdr = "\<lparr>version = 1, bpp = 32, size_bytes = 8, width = 1, height = 2,
            red_offset = 0, red_length = 8, blue_offset = 16, blue_length = 8,
            green_offset = 8, green_length = 8, alpha_offset = 0, alpha_length = 0\<rparr>"
  have hdr: "write_data_fbinfo ?info (stale_fbinfo 0) = Some ?hdr"
    by (simp add: write_data_fbinfo_def geometry_def stale_fbinfo_def DDMS_RAWIMAGE_VERSION_def)
  have run: "write_data STDOUT_FILENO ?info [1, 2, 3, 4, 5, 6, 7, 8] 8 (stale_fbinfo 0) w =
      Some (Inr 0, w\<lparr>calls := 2, out := fbinfo_bytes ?hdr\<rparr>)"
    if "sink w = ?s" "calls w = 0" "out w = []" "errno w = 0" for w
  proof -
    let ?w1 = "w\<lparr>calls := Suc 0, out := fbinfo_bytes ?hdr\<rparr>"
    have ne: "fbinfo_bytes ?hdr \<noteq> []"
      using length_fbinfo_bytes [of ?hdr] by auto
    have "writex STDOUT_FILENO (fbinfo_bytes ?hdr) w = writex STDOUT_FILENO [] ?w1"
      using ne that by (subst writex.simps)
        (simp add: sys_write_def length_fbinfo_bytes SSIZE_MAX_def)
    then have w1: "writex STDOUT_FILENO (fbinfo_bytes ?hdr) w = Some (0, ?w1)"
      by (simp add: writex_Nil)
    have row: "fetch [1, 2, 3, 4, 5, 6, 7, 8] 4 (4 :: 32 word) = Some [5, 6, 7, 8]"
      by (simp add: fetch_def)
    have w2: "writex STDOUT_FILENO [5, 6, 7, 8] ?w1 = Some (- 1, ?w1\<lparr>calls := Suc (calls ?w1)\<rparr>)"
      by (rule writex_terminal_zero) (simp_all add: that)
    have "write_data_rows STDOUT_FILENO [1, 2, 3, 4, 5, 6, 7, 8] 4 2 0 8 ?w1 =
        Some (Inr 0, ?w1\<lparr>calls := Suc (calls ?w1)\<rparr>)"
      by (subst write_data_rows.simps) (simp add: row w2 that)
    then show ?thesis
      by (simp add: write_data_def hdr w1) (simp add: geometry_def)
  qed
  have a: "write_data STDOUT_FILENO ?info [1, 2, 3, 4, 5, 6, 7, 8] 8 (stale_fbinfo 0) (world0 ?s) =
      Some (Inr NO_ERROR, (world0 ?s)\<lparr>calls := 2, out := fbinfo_bytes ?hdr\<rparr>)"
    using run [of "world0 ?s"] by (simp add: world0_def NO_ERROR_def)
  let ?w2 = "(world0 ?s)\<lparr>events := events (world0 ?s) @ [AshmemCreate 8, Mmap 8]\<rparr>"
  have "write_data STDOUT_FILENO ?info [1, 2, 3, 4, 5, 6, 7, 8] 8 (stale_fbinfo 0) ?w2 =
      Some (Inr 0, ?w2\<lparr>calls := 2, out := fbinfo_bytes ?hdr\<rparr>)"
    by (rule run) (simp_all add: world0_def)
  then have "\<exists>w'. main (screen_env 0 PIXEL_FORMAT_RGBA_8888 0) (world0 ?s) = Some (Inr 0, w') \<and>
      out w' = out (?w2\<lparr>calls := 2, out := fbinfo_bytes ?hdr\<rparr>) \<and>
      events w' = events (world0 ?s) @ [AshmemCreate 8, Mmap 8, Munmap 8, CloseFd 3]"
    by (intro main_success [where info = ?info and ea = 0 and eb = 0
          and frame = "[1, 2, 3, 4, 5, 6, 7, 8]"])
      (simp_all add: screen_env_def mapped_frame_def undo_orientation_def
        eOrientationSwapMask_def, simp_all add: geometry_def)
  then have b: "\<exists>w'. main (screen_env 0 PIXEL_FORMAT_RGBA_8888 0) (world0 ?s) = Some (Inr 0, w') \<and>
      out w' = fbinfo_bytes ?hdr"
    by auto
  from a b show ?thesis
    by simp
qed



text \<open>
  Claim C1 says that the mapping is unmapped and the handle closed on every exit path.
  Three failing runs and one successful run of \<open>main\<close>, each with the log of resource
  operations at exit: when \<open>grabScreen\<close> fails, when the format is unsupported, and when
  the first \<open>write\<close> fails with \<open>EPIPE\<close> (32), \<open>main\<close> returns \<open>-1\<close> (lines 175
  and 181) and the log holds the two acquisitions only, with no \<open>munmap\<close> and no
  \<open>close\<close>. Only the run that succeeds releases both, once each, unmap first.
\<close>

theorem main_failure_paths_skip_release:
  "main (screen_env (- 1) PIXEL_FORMAT_RGBA_8888 0) (world0 (\<lambda>n. Accept 64)) =
     Some (Inr (- 1), (world0 (\<lambda>n. Accept 64))\<lparr>events := [AshmemCreate 8, Mmap 8]\<rparr>) \<and>
   main (screen_env 0 PIXEL_FORMAT_UNKNOWN 0) (world0 (\<lambda>n. Accept 64)) =
     Some (Inr (- 1), (world0 (\<lambda>n. Accept 64))\<lparr>events := [AshmemCreate 8, Mmap 8]\<rparr>) \<and>
   main (screen_env 0 PIXEL_FORMAT_RGBA_8888 0) (world0 (\<lambda>n. Fail 32)) =
     Some (Inr (- 1),
       (world0 (\<lambda>n. Fail 32))\<lparr>calls := 1, errno := 32, events := [AshmemCreate 8, Mmap 8]\<rparr>) \<and>
   (\<exists>w'. main (screen_env 0 PIXEL_FORMAT_RGBA_8888 0) (world0 (\<lambda>n. Accept 64)) = Some (Inr 0, w') \<and>
      events w' = [AshmemCreate 8, Mmap 8, Munmap 8, CloseFd 3])"
proof (intro conjI)
  show "main (screen_env (- 1) PIXEL_FORMAT_RGBA_8888 0) (world0 (\<lambda>n. Accept 64)) =
     Some (Inr (- 1), (world0 (\<lambda>n. Accept 64))\<lparr>events := [AshmemCreate 8, Mmap 8]\<rparr>)"
    by (simp add: main_def screen_env_def geometry_def world0_def undo_orientation_def
        eOrientationSwapMask_def)
next
  show "main (screen_env 0 PIXEL_FORMAT_UNKNOWN 0) (world0 (\<lambda>n. Accept 64)) =
     Some (Inr (- 1), (world0 (\<lambda>n. Accept 64))\<lparr>events := [AshmemCreate 8, Mmap 8]\<rparr>)"
    by (simp add: main_def screen_env_def geometry_def world0_def undo_orientation_def
        eOrientationSwapMask_def write_data_def write_data_fbinfo_def BAD_VALUE_def)
next
  let ?w2 = "(world0 (\<lambda>n. Fail 32))\<lparr>events := [AshmemCreate 8, Mmap 8]\<rparr>"
  have "fbinfo_bytes hdr \<noteq> []" for hdr
    using length_fbinfo_bytes [of hdr] by auto
  then have "writex STDOUT_FILENO (fbinfo_bytes hdr) ?w2 =
      Some (- 1, ?w2\<lparr>calls := Suc (calls ?w2), errno := 32\<rparr>)" for hdr
    by (intro writex_terminal_error) (simp_all add: world0_def EINTR_def)
  then show "main (screen_env 0 PIXEL_FORMAT_RGBA_8888 0) (world0 (\<lambda>n. Fail 32)) =
     Some (Inr (- 1),
       (world0 (\<lambda>n. Fail 32))\<lparr>calls := 1, errno := 32, events := [AshmemCreate 8, Mmap 8]\<rparr>)"
    by (simp add: main_def screen_env_def geometry_def world0_def undo_orientation_def
        eOrientationSwapMask_def write_data_def write_data_fbinfo_def)
next
  let ?e = "screen_env 0 PIXEL_FORMAT_RGBA_8888 0"
  let ?info = "geometry PIXEL_FORMAT_RGBA_8888 4 1 2 0"
  let ?w = "world0 (\<lambda>n. Accept 64)"
  have u: "undo_orientation ?info = ?info"
    by (simp add: undo_orientation_def geometry_def eOrientationSwapMask_def)
  have "\<exists>hdr. write_data_fbinfo ?info (stale_fbinfo 0) = Some hdr"
    by (rule write_data_fbinfo_supported) (simp add: geometry_def)
  then obtain hdr where hdr: "write_data_fbinfo ?info (stale_fbinfo 0) = Some hdr" ..
  have "\<exists>w3. write_data STDOUT_FILENO ?info (concat [[1, 2, 3, 4], [5, 6, 7, 8]]) 8 (stale_fbinfo 0)
      (?w\<lparr>events := events ?w @ [AshmemCreate 8, Mmap 8]\<rparr>) = Some (Inr NO_ERROR, w3) \<and>
      out w3 = out (?w\<lparr>events := events ?w @ [AshmemCreate 8, Mmap 8]\<rparr>) @ fbinfo_bytes hdr @
        concat (rev [[1, 2, 3, 4], [5, 6, 7, 8]]) \<and>
      events w3 = events (?w\<lparr>events := events ?w @ [AshmemCreate 8, Mmap 8]\<rparr>)"
    by (rule write_data_buffer [OF _ hdr]) (simp_all add: world0_def never_fails_def geometry_def)
  then obtain w3 where "write_data STDOUT_FILENO ?info [1, 2, 3, 4, 5, 6, 7, 8] 8 (stale_fbinfo 0)
      (?w\<lparr>events := events ?w @ [AshmemCreate 8, Mmap 8]\<rparr>) = Some (Inr 0, w3)"
    by (auto simp: NO_ERROR_def)
  then have "\<exists>w'. main ?e ?w = Some (Inr 0, w') \<and> out w' = out w3 \<and>
      events w' = events ?w @ [AshmemCreate 8, Mmap 8, Munmap 8, CloseFd 3]"
    by (intro main_success [where info = ?info and ea = 0 and eb = 0
          and frame = "[1, 2, 3, 4, 5, 6, 7, 8]"])
      (simp_all add: screen_env_def u mapped_frame_def, simp_all add: geometry_def)
  then show "\<exists>w'. main ?e ?w = Some (Inr 0, w') \<and>
      events w' = [AshmemCreate 8, Mmap 8, Munmap 8, CloseFd 3]"
    by (auto simp: world0_def)
qed

end
